theory Spec2Isabelle
  imports Main
begin

section \<open>The connection core of sniproxy (src/connection.c)\<close>

text \<open>
  The theory embeds \<^verbatim>\<open>connection.c\<close>: the connection records, the queue of live
  connections, the two close primitives, the accept path, the readiness-set computation,
  the dispatch loop and the client-hello handoff.

  The C program keeps its connections in a \<^verbatim>\<open>TAILQ\<close> of heap-allocated records and
  mutates them through pointers. The model keeps that shape: a world holds the queue as
  a list of addresses, the allocated records as a partial map from addresses, and a
  trace of the \<^verbatim>\<open>close\<close> and \<^verbatim>\<open>free\<close> calls made on descriptors and hostname strings.
  Logging (\<^verbatim>\<open>syslog\<close>), the peer address fields, \<^verbatim>\<open>getpeername\<close> and the debug dump have
  no influence on any modelled value and are left out.
\<close>

subsection \<open>Data\<close>

datatype State = NEW | ACCEPTED | CONNECTED | SERVER_CLOSED | CLIENT_CLOSED | CLOSED

text \<open>
  \<^verbatim>\<open>struct Buffer\<close> lives in \<^verbatim>\<open>buffer.c\<close>, which is not part of the sources at hand;
  \<^verbatim>\<open>print_connection\<close> reads its fields \<^verbatim>\<open>len\<close> and \<^verbatim>\<open>size\<close>. The model keeps the
  capacity and the queued bytes; \<^verbatim>\<open>len\<close> is the number of queued bytes.
\<close>

record Buffer =
  capacity :: nat
  content :: "char list"

record Endpoint =
  sockfd :: int
  buffer :: Buffer

record Connection =
  state :: State
  client :: Endpoint
  server :: Endpoint
  hostname :: "string option"
  listener :: nat

datatype event = Close int | Free string

record world =
  connections :: "nat list"
  heap :: "nat \<Rightarrow> Connection option"
  trace :: "event list"

subsection \<open>The outside world\<close>

text \<open>
  What the kernel, the allocator and the listener answer is not decided by
  \<^verbatim>\<open>connection.c\<close>. Every such answer is a field of an environment, indexed by the
  address of the connection on whose behalf the call is made (within one call of
  \<^verbatim>\<open>handle_connections\<close> each connection makes each kind of call at most once, so the
  index loses no behaviour). A listener is named by its address; \<^verbatim>\<open>0\<close> is \<^verbatim>\<open>NULL\<close>.
\<close>

datatype recv_answer = Recv_data "char list" | Recv_errno int

datatype send_answer = Send_room nat | Send_errno int

record env =
  parse_packet :: "nat \<Rightarrow> char list \<Rightarrow> int \<times> string option"
  lookup_server_socket :: "nat \<Rightarrow> nat \<Rightarrow> string option \<Rightarrow> int"
  client_recv :: "nat \<Rightarrow> recv_answer"
  client_send :: "nat \<Rightarrow> send_answer"
  server_recv :: "nat \<Rightarrow> recv_answer"
  server_send :: "nat \<Rightarrow> send_answer"
  calloc_answer :: "nat option"
  new_buffer_answer :: "nat \<Rightarrow> nat option"
  accept_answer :: int

text \<open>
  System constants, with the values of Linux and glibc. Apart from the evaluation of
  concrete examples, the proofs use only that \<^verbatim>\<open>FD_SETSIZE\<close> is not negative.
\<close>

definition FD_SETSIZE :: int where
  "FD_SETSIZE = 1024"

definition EAGAIN :: int where
  "EAGAIN = 11"

definition EWOULDBLOCK :: int where
  "EWOULDBLOCK = 11"

definition EINTR :: int where
  "EINTR = 4"

definition IS_TEMPORARY_SOCKERR :: "int \<Rightarrow> bool" where
  "IS_TEMPORARY_SOCKERR errno \<longleftrightarrow> errno = EAGAIN \<or> errno = EWOULDBLOCK \<or> errno = EINTR"

definition MAX_macro :: "int \<Rightarrow> int \<Rightarrow> int" where
  \<comment> \<open>The macro \<^verbatim>\<open>MAX(X, Y)\<close>.\<close>
  "MAX_macro X Y = (if X > Y then X else Y)"

subsection \<open>The buffer collaborator\<close>

definition buffer_len :: "Buffer \<Rightarrow> nat" where
  \<comment> \<open>Modelled from the spec: \<^verbatim>\<open>buffer_len\<close> of \<^verbatim>\<open>buffer.c\<close> is missing; the current fill.\<close>
  "buffer_len b = length (content b)"

definition buffer_room :: "Buffer \<Rightarrow> nat" where
  \<comment> \<open>Modelled from the spec: \<^verbatim>\<open>buffer_room\<close> of \<^verbatim>\<open>buffer.c\<close> is missing;
      \<^verbatim>\<open>room() = size - len\<close>.\<close>
  "buffer_room b = capacity b - buffer_len b"

definition buffer_peek :: "Buffer \<Rightarrow> nat \<Rightarrow> char list" where
  \<comment> \<open>Modelled from the spec: \<^verbatim>\<open>buffer_peek\<close> of \<^verbatim>\<open>buffer.c\<close> is missing; it copies
      at most \<^verbatim>\<open>n\<close> of the queued bytes and consumes nothing.\<close>
  "buffer_peek b n = take n (content b)"

definition buffer_recv :: "Buffer \<Rightarrow> recv_answer \<Rightarrow> int \<times> int \<times> Buffer" where
  \<comment> \<open>Modelled from the spec: \<^verbatim>\<open>buffer_recv\<close> of \<^verbatim>\<open>buffer.c\<close> is missing; it reads up
      to \<^verbatim>\<open>room()\<close> bytes and returns the number received (0 at end of stream) or a
      negative value with \<^verbatim>\<open>errno\<close> set. The result is the return value, \<^verbatim>\<open>errno\<close>
      and the buffer afterwards.\<close>
  "buffer_recv b a =
     (case a of
        Recv_errno errno \<Rightarrow> (- 1, errno, b)
      | Recv_data bytes \<Rightarrow>
          (let got = take (buffer_room b) bytes
           in (int (length got), 0, b\<lparr>content := content b @ got\<rparr>)))"

definition buffer_send :: "Buffer \<Rightarrow> send_answer \<Rightarrow> int \<times> int \<times> Buffer" where
  \<comment> \<open>Modelled from the spec: \<^verbatim>\<open>buffer_send\<close> of \<^verbatim>\<open>buffer.c\<close> is missing; it writes up
      to \<^verbatim>\<open>len\<close> bytes and advances the queue by the amount sent, or returns a negative
      value with \<^verbatim>\<open>errno\<close> set.\<close>
  "buffer_send b a =
     (case a of
        Send_errno errno \<Rightarrow> (- 1, errno, b)
      | Send_room k \<Rightarrow>
          (let n = min k (buffer_len b)
           in (int n, 0, b\<lparr>content := drop n (content b)\<rparr>)))"

definition new_buffer :: "nat option \<Rightarrow> Buffer option" where
  \<comment> \<open>Modelled from the spec: \<^verbatim>\<open>new_buffer\<close> of \<^verbatim>\<open>buffer.c\<close> is missing; it returns
      \<^verbatim>\<open>NULL\<close> or an empty buffer of some capacity.\<close>
  "new_buffer a = map_option (\<lambda>n. \<lparr>capacity = n, content = []\<rparr>) a"

subsection \<open>Queue and trace primitives\<close>

definition TAILQ_REMOVE :: "nat \<Rightarrow> world \<Rightarrow> world" where
  "TAILQ_REMOVE p w = w\<lparr>connections := remove1 p (connections w)\<rparr>"

definition TAILQ_INSERT_HEAD :: "nat \<Rightarrow> world \<Rightarrow> world" where
  "TAILQ_INSERT_HEAD p w = w\<lparr>connections := p # connections w\<rparr>"

definition sys_close :: "int \<Rightarrow> world \<Rightarrow> world" where
  "sys_close fd w = w\<lparr>trace := trace w @ [Close fd]\<rparr>"

definition free_string :: "string option \<Rightarrow> world \<Rightarrow> world" where
  \<comment> \<open>\<^verbatim>\<open>free(NULL)\<close> does nothing.\<close>
  "free_string h w = (case h of None \<Rightarrow> w | Some s \<Rightarrow> w\<lparr>trace := trace w @ [Free s]\<rparr>)"

definition store :: "nat \<Rightarrow> Connection \<Rightarrow> world \<Rightarrow> world" where
  "store p c w = w\<lparr>heap := (heap w)(p \<mapsto> c)\<rparr>"

definition init_connections :: world where
  "init_connections = \<lparr>connections = [], heap = Map.empty, trace = []\<rparr>"

definition move_to_head_of_queue :: "nat \<Rightarrow> world \<Rightarrow> world" where
  "move_to_head_of_queue con w = TAILQ_INSERT_HEAD con (TAILQ_REMOVE con w)"

subsection \<open>Closing\<close>

text \<open>
  A function that receives a pointer reads the record at that address. Reading an
  address that is not allocated is undefined in C; the model then leaves the world as it
  is. The addresses reached from the queue of a well-formed world are all allocated.
\<close>

definition close_client_socket :: "nat \<Rightarrow> world \<Rightarrow> world" where
  "close_client_socket p w =
     (case heap w p of
        None \<Rightarrow> w
      | Some c \<Rightarrow>
          store p (c\<lparr>state := (if state c = CONNECTED then CLIENT_CLOSED else CLOSED)\<rparr>)
            (sys_close (sockfd (client c)) w))"

definition close_server_socket :: "nat \<Rightarrow> world \<Rightarrow> world" where
  "close_server_socket p w =
     (case heap w p of
        None \<Rightarrow> w
      | Some c \<Rightarrow>
          store p (c\<lparr>state := (if state c = CLIENT_CLOSED then CLOSED else SERVER_CLOSED)\<rparr>)
            (sys_close (sockfd (server c)) w))"

definition close_connection :: "nat \<Rightarrow> world \<Rightarrow> world" where
  "close_connection p w =
     (let w1 = (case heap w p of
                  None \<Rightarrow> w
                | Some c \<Rightarrow>
                    if state c = CONNECTED \<or> state c = ACCEPTED \<or> state c = SERVER_CLOSED
                    then close_client_socket p w else w)
      in case heap w1 p of
           None \<Rightarrow> w1
         | Some c \<Rightarrow>
             if state c = CONNECTED \<or> state c = CLIENT_CLOSED
             then close_server_socket p w1 else w1)"

definition free_connection :: "nat \<Rightarrow> world \<Rightarrow> world" where
  "free_connection p w =
     (let w1 = close_connection p w
      in case heap w1 p of
           None \<Rightarrow> w1
         | Some c \<Rightarrow> (free_string (hostname c) w1)\<lparr>heap := (heap w1)(p := None)\<rparr>)"

subsection \<open>The client-hello handoff\<close>

text \<open>
  The local array of 1460 bytes receives what \<^verbatim>\<open>buffer_peek\<close> copies; the parser is the
  one of the record's listener and answers with its \<^verbatim>\<open>int\<close> result and the hostname it
  stored through the pointer argument (\<open>None\<close> when it left the \<^verbatim>\<open>NULL\<close> it was given).
  Only \<^verbatim>\<open>accept_connection\<close> makes a record \<^verbatim>\<open>ACCEPTED\<close>, and it sets the listener in the
  same step.
\<close>

definition handle_connection_client_hello :: "env \<Rightarrow> nat \<Rightarrow> world \<Rightarrow> world" where
  "handle_connection_client_hello e p w =
     (case heap w p of
        None \<Rightarrow> w
      | Some con \<Rightarrow>
          (let buf = buffer_peek (buffer (client con)) 1460;
               (parse_result, hostname') = parse_packet e (listener con) buf
           in if parse_result = - 1 then w
              else if parse_result = - 2 then close_connection p w
              else if parse_result < - 2 then close_connection p w
              else
                (let fd = lookup_server_socket e p (listener con) hostname';
                     con1 = con\<lparr>server := (server con)\<lparr>sockfd := fd\<rparr>\<rparr>;
                     w1 = store p con1 w
                 in if fd < 0 then free_string hostname' (close_connection p w1)
                    else if fd > FD_SETSIZE
                    then free_string hostname' (close_connection p (close_server_socket p w1))
                    else store p (con1\<lparr>hostname := hostname', state := CONNECTED\<rparr>) w1)))"

subsection \<open>The four I/O handlers\<close>

text \<open>Each handler returns its \<^verbatim>\<open>int\<close> result and the world afterwards.\<close>

definition handle_connection_client_rx :: "env \<Rightarrow> nat \<Rightarrow> world \<Rightarrow> int \<times> world" where
  "handle_connection_client_rx e p w =
     (case heap w p of
        None \<Rightarrow> (1, w)
      | Some con \<Rightarrow>
          (let (n, errno, b) = buffer_recv (buffer (client con)) (client_recv e p);
               w1 = store p (con\<lparr>client := (client con)\<lparr>buffer := b\<rparr>\<rparr>) w
           in if n < 0 \<and> \<not> IS_TEMPORARY_SOCKERR errno then (1, w1)
              else if n = 0 then (1, w1)
              else
                (let w2 = (if state con = ACCEPTED
                           then handle_connection_client_hello e p w1 else w1)
                 in (0, move_to_head_of_queue p w2))))"

definition handle_connection_client_tx :: "env \<Rightarrow> nat \<Rightarrow> world \<Rightarrow> int \<times> world" where
  "handle_connection_client_tx e p w =
     (case heap w p of
        None \<Rightarrow> (1, w)
      | Some con \<Rightarrow>
          (let (n, errno, b) = buffer_send (buffer (server con)) (client_send e p);
               w1 = store p (con\<lparr>server := (server con)\<lparr>buffer := b\<rparr>\<rparr>) w
           in if n < 0 \<and> \<not> IS_TEMPORARY_SOCKERR errno then (1, w1)
              else (0, move_to_head_of_queue p w1)))"

definition handle_connection_server_rx :: "env \<Rightarrow> nat \<Rightarrow> world \<Rightarrow> int \<times> world" where
  "handle_connection_server_rx e p w =
     (case heap w p of
        None \<Rightarrow> (1, w)
      | Some con \<Rightarrow>
          (let (n, errno, b) = buffer_recv (buffer (server con)) (server_recv e p);
               w1 = store p (con\<lparr>server := (server con)\<lparr>buffer := b\<rparr>\<rparr>) w
           in if n < 0 \<and> \<not> IS_TEMPORARY_SOCKERR errno then (1, w1)
              else if n = 0 then (1, w1)
              else (0, move_to_head_of_queue p w1)))"

definition handle_connection_server_tx :: "env \<Rightarrow> nat \<Rightarrow> world \<Rightarrow> int \<times> world" where
  "handle_connection_server_tx e p w =
     (case heap w p of
        None \<Rightarrow> (1, w)
      | Some con \<Rightarrow>
          (let (n, errno, b) = buffer_send (buffer (client con)) (server_send e p);
               w1 = store p (con\<lparr>client := (client con)\<lparr>buffer := b\<rparr>\<rparr>) w
           in if n < 0 \<and> \<not> IS_TEMPORARY_SOCKERR errno then (1, w1)
              else (0, move_to_head_of_queue p w1)))"

subsection \<open>Accepting\<close>

text \<open>
  \<^verbatim>\<open>new_connection\<close> returns \<^verbatim>\<open>NULL\<close> (here \<open>None\<close>) when \<^verbatim>\<open>calloc\<close> or one of the two
  \<^verbatim>\<open>new_buffer\<close> calls fails; the record is then freed again, in state \<^verbatim>\<open>NEW\<close>, which
  closes nothing and frees no hostname. Otherwise the fresh record is allocated at the
  address \<^verbatim>\<open>calloc\<close> chose, with every field that is not assigned zeroed.
\<close>

definition new_connection :: "env \<Rightarrow> world \<Rightarrow> nat option \<times> world" where
  "new_connection e w =
     (case calloc_answer e of
        None \<Rightarrow> (None, w)
      | Some a \<Rightarrow>
          (case new_buffer (new_buffer_answer e 0) of
             None \<Rightarrow> (None, w)
           | Some b1 \<Rightarrow>
               (case new_buffer (new_buffer_answer e 1) of
                  None \<Rightarrow> (None, w)
                | Some b2 \<Rightarrow>
                    (Some a,
                     store a \<lparr>state = NEW,
                              client = \<lparr>sockfd = 0, buffer = b1\<rparr>,
                              server = \<lparr>sockfd = 0, buffer = b2\<rparr>,
                              hostname = None, listener = 0\<rparr> w))))"

definition accept_connection :: "env \<Rightarrow> nat \<Rightarrow> world \<Rightarrow> world" where
  "accept_connection e l w =
     (case new_connection e w of
        (None, w0) \<Rightarrow> w0
      | (Some c, w0) \<Rightarrow>
          (case heap w0 c of
             None \<Rightarrow> w0
           | Some con \<Rightarrow>
               (let fd = accept_answer e;
                    con1 = con\<lparr>client := (client con)\<lparr>sockfd := fd\<rparr>\<rparr>;
                    w1 = store c con1 w0
                in if fd < 0 then free_connection c w1
                   else if fd > FD_SETSIZE then free_connection c (close_client_socket c w1)
                   else TAILQ_INSERT_HEAD c
                          (store c (con1\<lparr>state := ACCEPTED, listener := l\<rparr>) w1))))"

subsection \<open>The readiness sets\<close>

text \<open>
  An \<^verbatim>\<open>fd_set\<close> is a bit set of \<^verbatim>\<open>FD_SETSIZE\<close> bits, one for each descriptor from 0 to
  \<^verbatim>\<open>FD_SETSIZE - 1\<close>; the model keeps the set of descriptors whose bit is set. \<^verbatim>\<open>FD_SET\<close>
  sets the bit of a descriptor. For a descriptor outside the range it writes outside the
  bit set, which is undefined in C (and aborts under a fortified libc): the model then has
  no result, \<open>None\<close>. \<^verbatim>\<open>accept_connection\<close> and the handoff let the descriptor
  \<^verbatim>\<open>FD_SETSIZE\<close> itself through (their test is \<^verbatim>\<open>>\<close>), so this case can arise.
\<close>

definition FD_SET :: "int \<Rightarrow> int set \<Rightarrow> int set option" where
  "FD_SET fd fds = (if 0 \<le> fd \<and> fd < FD_SETSIZE then Some (insert fd fds) else None)"

definition FD_SET_if :: "bool \<Rightarrow> int \<Rightarrow> int set \<Rightarrow> int set option" where
  \<comment> \<open>The statement \<^verbatim>\<open>if (cond) FD_SET(fd, fds);\<close>.\<close>
  "FD_SET_if cond fd fds = (if cond then FD_SET fd fds else Some fds)"

text \<open>
  The loop body of \<^verbatim>\<open>fd_set_connections\<close> works on one record and the triple of read
  set, write set and running maximum.
\<close>

definition fd_set_client_side ::
  "Connection \<Rightarrow> int set \<times> int set \<times> int \<Rightarrow> (int set \<times> int set \<times> int) option" where
  \<comment> \<open>The statements under \<^verbatim>\<open>case ACCEPTED\<close>, reached from \<^verbatim>\<open>CONNECTED\<close> by falling through.\<close>
  "fd_set_client_side c = (\<lambda>(rfds, wfds, mx).
     (case FD_SET_if (buffer_room (buffer (client c)) \<noteq> 0) (sockfd (client c)) rfds of
        None \<Rightarrow> None
      | Some rfds' \<Rightarrow>
          (case FD_SET_if (buffer_len (buffer (server c)) \<noteq> 0) (sockfd (client c)) wfds of
             None \<Rightarrow> None
           | Some wfds' \<Rightarrow> Some (rfds', wfds', MAX_macro mx (sockfd (client c))))))"

definition fd_set_server_side ::
  "Connection \<Rightarrow> int set \<times> int set \<times> int \<Rightarrow> (int set \<times> int set \<times> int) option" where
  \<comment> \<open>The statements under \<^verbatim>\<open>case CONNECTED\<close> before the fall through.\<close>
  "fd_set_server_side c = (\<lambda>(rfds, wfds, mx).
     (case FD_SET_if (buffer_room (buffer (server c)) \<noteq> 0) (sockfd (server c)) rfds of
        None \<Rightarrow> None
      | Some rfds' \<Rightarrow>
          (case FD_SET_if (buffer_len (buffer (client c)) \<noteq> 0) (sockfd (server c)) wfds of
             None \<Rightarrow> None
           | Some wfds' \<Rightarrow> Some (rfds', wfds', MAX_macro mx (sockfd (server c))))))"

definition fd_set_connection ::
  "Connection \<Rightarrow> int set \<times> int set \<times> int \<Rightarrow> (int set \<times> int set \<times> int) option" where
  \<comment> \<open>The \<^verbatim>\<open>switch\<close> on \<^verbatim>\<open>iter->state\<close>; \<^verbatim>\<open>NEW\<close> falls to \<^verbatim>\<open>default\<close>, which only logs.\<close>
  "fd_set_connection c = (\<lambda>(rfds, wfds, mx).
     (case state c of
        CONNECTED \<Rightarrow>
          (case fd_set_server_side c (rfds, wfds, mx) of
             None \<Rightarrow> None
           | Some acc \<Rightarrow> fd_set_client_side c acc)
      | ACCEPTED \<Rightarrow> fd_set_client_side c (rfds, wfds, mx)
      | SERVER_CLOSED \<Rightarrow>
          (case FD_SET (sockfd (client c)) wfds of
             None \<Rightarrow> None
           | Some wfds' \<Rightarrow> Some (rfds, wfds', MAX_macro mx (sockfd (client c))))
      | CLIENT_CLOSED \<Rightarrow>
          (case FD_SET (sockfd (server c)) wfds of
             None \<Rightarrow> None
           | Some wfds' \<Rightarrow> Some (rfds, wfds', MAX_macro mx (sockfd (server c))))
      | CLOSED \<Rightarrow> Some (rfds, wfds, mx)
      | NEW \<Rightarrow> Some (rfds, wfds, mx)))"

fun fd_set_loop :: "(nat \<Rightarrow> Connection option) \<Rightarrow> nat list \<Rightarrow> int set \<times> int set \<times> int
    \<Rightarrow> (int set \<times> int set \<times> int) option" where
  "fd_set_loop h [] acc = Some acc"
| "fd_set_loop h (p # ps) acc =
     (case (case h p of None \<Rightarrow> Some acc | Some c \<Rightarrow> fd_set_connection c acc) of
        None \<Rightarrow> None
      | Some acc' \<Rightarrow> fd_set_loop h ps acc')"

definition fd_set_connections ::
  "world \<Rightarrow> int set \<Rightarrow> int set \<Rightarrow> int \<Rightarrow> (int set \<times> int set \<times> int) option" where
  \<comment> \<open>The result is the two sets afterwards and the returned maximum, or \<open>None\<close> when
      an \<^verbatim>\<open>FD_SET\<close> on the way was out of range.\<close>
  "fd_set_connections w rfds wfds mx = fd_set_loop (heap w) (connections w) (rfds, wfds, mx)"

subsection \<open>Dispatch\<close>

text \<open>
  The body of the loop of \<^verbatim>\<open>handle_connections\<close>, statement by statement. Every
  condition reads the record as it is when the condition is evaluated, as the C code
  reads through \<^verbatim>\<open>iter\<close>. \<^verbatim>\<open>FD_ISSET\<close> only reads: whatever it finds, also for a descriptor
  outside the range, is a truth value, and the two sets are arbitrary sets of integers, so
  every answer it can give is the answer for some pair of sets.
\<close>

definition FD_ISSET :: "int \<Rightarrow> int set \<Rightarrow> bool" where
  "FD_ISSET fd fds \<longleftrightarrow> fd \<in> fds"

definition server_rx_step :: "env \<Rightarrow> int set \<Rightarrow> nat \<Rightarrow> world \<Rightarrow> int \<times> world" where
  "server_rx_step e rfds p w =
     (case heap w p of
        None \<Rightarrow> (0, w)
      | Some c \<Rightarrow>
          if FD_ISSET (sockfd (server c)) rfds \<and> buffer_room (buffer (server c)) \<noteq> 0
          then handle_connection_server_rx e p w else (0, w))"

definition server_tx_step :: "env \<Rightarrow> int set \<Rightarrow> nat \<Rightarrow> int \<times> world \<Rightarrow> int \<times> world" where
  "server_tx_step e wfds p = (\<lambda>(err, w).
     (case heap w p of
        None \<Rightarrow> (err, w)
      | Some c \<Rightarrow>
          if err = 0 \<and> FD_ISSET (sockfd (server c)) wfds \<and> buffer_len (buffer (client c)) \<noteq> 0
          then handle_connection_server_tx e p w else (err, w)))"

definition client_rx_step :: "env \<Rightarrow> int set \<Rightarrow> nat \<Rightarrow> world \<Rightarrow> int \<times> world" where
  "client_rx_step e rfds p w =
     (case heap w p of
        None \<Rightarrow> (0, w)
      | Some c \<Rightarrow>
          if FD_ISSET (sockfd (client c)) rfds \<and> buffer_room (buffer (client c)) \<noteq> 0
          then handle_connection_client_rx e p w else (0, w))"

definition client_tx_step :: "env \<Rightarrow> int set \<Rightarrow> nat \<Rightarrow> int \<times> world \<Rightarrow> int \<times> world" where
  "client_tx_step e wfds p = (\<lambda>(err, w).
     (case heap w p of
        None \<Rightarrow> (err, w)
      | Some c \<Rightarrow>
          if err = 0 \<and> FD_ISSET (sockfd (client c)) wfds \<and> buffer_len (buffer (server c)) \<noteq> 0
          then handle_connection_client_tx e p w else (err, w)))"

definition server_side :: "env \<Rightarrow> int set \<Rightarrow> int set \<Rightarrow> nat \<Rightarrow> world \<Rightarrow> world" where
  \<comment> \<open>The statements under \<^verbatim>\<open>case CONNECTED\<close> before the fall through.\<close>
  "server_side e rfds wfds p w =
     (case server_tx_step e wfds p (server_rx_step e rfds p w) of
        (err, w1) \<Rightarrow> if err \<noteq> 0 then close_server_socket p w1 else w1)"

definition client_side :: "env \<Rightarrow> int set \<Rightarrow> int set \<Rightarrow> nat \<Rightarrow> world \<Rightarrow> world" where
  \<comment> \<open>The statements under \<^verbatim>\<open>case ACCEPTED\<close>.\<close>
  "client_side e rfds wfds p w =
     (case client_tx_step e wfds p (client_rx_step e rfds p w) of
        (err, w1) \<Rightarrow> if err \<noteq> 0 then close_client_socket p w1 else w1)"

definition server_closed_case :: "env \<Rightarrow> int set \<Rightarrow> nat \<Rightarrow> world \<Rightarrow> world" where
  "server_closed_case e wfds p w =
     (case client_tx_step e wfds p (0, w) of
        (err, w1) \<Rightarrow>
          (case heap w1 p of
             None \<Rightarrow> w1
           | Some c \<Rightarrow>
               if err \<noteq> 0 \<or> buffer_len (buffer (server c)) = 0
               then close_client_socket p w1 else w1))"

definition client_closed_case :: "env \<Rightarrow> int set \<Rightarrow> nat \<Rightarrow> world \<Rightarrow> world" where
  "client_closed_case e wfds p w =
     (case server_tx_step e wfds p (0, w) of
        (err, w1) \<Rightarrow>
          (case heap w1 p of
             None \<Rightarrow> w1
           | Some c \<Rightarrow>
               if err \<noteq> 0 \<or> buffer_len (buffer (client c)) = 0
               then close_server_socket p w1 else w1))"

definition handle_connection :: "env \<Rightarrow> int set \<Rightarrow> int set \<Rightarrow> nat \<Rightarrow> world \<Rightarrow> world" where
  \<comment> \<open>The \<^verbatim>\<open>switch\<close> on \<^verbatim>\<open>iter->state\<close>; \<^verbatim>\<open>NEW\<close> falls to \<^verbatim>\<open>default\<close>, which only logs.\<close>
  "handle_connection e rfds wfds p w =
     (case heap w p of
        None \<Rightarrow> w
      | Some c \<Rightarrow>
          (case state c of
             CONNECTED \<Rightarrow> client_side e rfds wfds p (server_side e rfds wfds p w)
           | ACCEPTED \<Rightarrow> client_side e rfds wfds p w
           | SERVER_CLOSED \<Rightarrow> server_closed_case e wfds p w
           | CLIENT_CLOSED \<Rightarrow> client_closed_case e wfds p w
           | CLOSED \<Rightarrow> free_connection p (TAILQ_REMOVE p w)
           | NEW \<Rightarrow> w))"

text \<open>
  \<^verbatim>\<open>TAILQ_FOREACH_SAFE\<close> saves the successor of \<^verbatim>\<open>iter\<close> in \<^verbatim>\<open>tmp\<close> before the body runs
  and continues with it. The body unlinks or relinks \<^verbatim>\<open>iter\<close> only (\<^verbatim>\<open>TAILQ_REMOVE\<close> and
  \<^verbatim>\<open>move_to_head_of_queue\<close> are applied to \<^verbatim>\<open>iter\<close>), so the records behind \<^verbatim>\<open>iter\<close> stay
  linked as they were (lemma \<open>handle_connection_keeps_successors\<close> below) and the chain
  of successors that the loop follows is the queue as it was when the loop started. The
  loop is therefore a recursion over that list: the head is \<^verbatim>\<open>iter\<close>, the tail is what
  \<^verbatim>\<open>tmp\<close> leads to.
\<close>

fun TAILQ_FOREACH_SAFE :: "(nat \<Rightarrow> world \<Rightarrow> world) \<Rightarrow> nat list \<Rightarrow> world \<Rightarrow> world" where
  "TAILQ_FOREACH_SAFE body [] w = w"
| "TAILQ_FOREACH_SAFE body (iter # tmp) w = TAILQ_FOREACH_SAFE body tmp (body iter w)"

definition handle_connections :: "env \<Rightarrow> int set \<Rightarrow> int set \<Rightarrow> world \<Rightarrow> world" where
  "handle_connections e rfds wfds w =
     TAILQ_FOREACH_SAFE (handle_connection e rfds wfds) (connections w) w"

text \<open>
  \<^verbatim>\<open>free_connections\<close> takes the first record of the queue, unlinks and frees it, until the
  queue is empty; the records it takes are those of the queue at entry, in order.
\<close>

fun free_connections_loop :: "nat list \<Rightarrow> world \<Rightarrow> world" where
  "free_connections_loop [] w = w"
| "free_connections_loop (iter # rest) w =
     free_connections_loop rest (free_connection iter (TAILQ_REMOVE iter w))"

definition free_connections :: "world \<Rightarrow> world" where
  "free_connections w = free_connections_loop (connections w) w"

subsection \<open>Well-formed and reachable worlds\<close>

definition wf_world :: "world \<Rightarrow> bool" where
  \<comment> \<open>A record is linked at most once, and every linked record is allocated.\<close>
  "wf_world w \<longleftrightarrow> distinct (connections w) \<and> (\<forall>p \<in> set (connections w). heap w p \<noteq> None)"

definition parser_ok :: "env \<Rightarrow> bool" where
  \<comment> \<open>The contract of the injected parser: a result that is not negative comes with a
      hostname string that is not empty.\<close>
  "parser_ok e \<longleftrightarrow>
     (\<forall>l bs. 0 \<le> fst (parse_packet e l bs) \<longrightarrow>
        (\<exists>h. snd (parse_packet e l bs) = Some h \<and> h \<noteq> []))"

definition calloc_fresh :: "env \<Rightarrow> world \<Rightarrow> bool" where
  \<comment> \<open>The contract of \<^verbatim>\<open>calloc\<close>: the address returned is not that of a live record.\<close>
  "calloc_fresh e w \<longleftrightarrow> (case calloc_answer e of None \<Rightarrow> True | Some a \<Rightarrow> heap w a = None)"

text \<open>
  The worlds the program can be in: it starts with \<^verbatim>\<open>init_connections\<close> and then calls
  \<^verbatim>\<open>accept_connection\<close>, \<^verbatim>\<open>handle_connections\<close> and \<^verbatim>\<open>free_connections\<close> in any order,
  against any environment that satisfies \<open>E\<close>. (\<^verbatim>\<open>fd_set_connections\<close> and the debug dump
  change nothing.)
\<close>

inductive reachable :: "(env \<Rightarrow> bool) \<Rightarrow> world \<Rightarrow> bool" for E :: "env \<Rightarrow> bool" where
  reachable_init: "reachable E init_connections"
| reachable_accept:
    "reachable E w \<Longrightarrow> E e \<Longrightarrow> calloc_fresh e w \<Longrightarrow> reachable E (accept_connection e l w)"
| reachable_handle:
    "reachable E w \<Longrightarrow> E e \<Longrightarrow> reachable E (handle_connections e rfds wfds w)"
| reachable_free: "reachable E w \<Longrightarrow> reachable E (free_connections w)"

subsection \<open>Vocabulary of the statements and proofs\<close>

text \<open>
  The failure conditions of the receive and send steps, in the words of the
  specification: a receive step fails on a negative result whose \<^verbatim>\<open>errno\<close> is none of
  \<^verbatim>\<open>EAGAIN\<close>, \<^verbatim>\<open>EWOULDBLOCK\<close>, \<^verbatim>\<open>EINTR\<close>, and on the result 0; a send step fails on the
  former only. The argument is what the buffer operation returned.
\<close>

definition rx_fatal :: "int \<times> int \<times> Buffer \<Rightarrow> bool" where
  "rx_fatal = (\<lambda>(n, errno, b). (n < 0 \<and> errno \<notin> {EAGAIN, EWOULDBLOCK, EINTR}) \<or> n = 0)"

definition tx_fatal :: "int \<times> int \<times> Buffer \<Rightarrow> bool" where
  "tx_fatal = (\<lambda>(n, errno, b). n < 0 \<and> errno \<notin> {EAGAIN, EWOULDBLOCK, EINTR})"

text \<open>
  The records of the queue, in order (\<open>live_records\<close>); the descriptors that the
  table of the specification puts into the read set and into the write set for one record
  (\<open>read_fds\<close>, \<open>write_fds\<close>); and the descriptors that a record has open in its state
  (\<open>open_fds\<close>): the server descriptor in \<^verbatim>\<open>CONNECTED\<close> and \<^verbatim>\<open>CLIENT_CLOSED\<close>, the client
  descriptor in \<^verbatim>\<open>CONNECTED\<close>, \<^verbatim>\<open>ACCEPTED\<close> and \<^verbatim>\<open>SERVER_CLOSED\<close>.
\<close>

fun records_at :: "(nat \<Rightarrow> Connection option) \<Rightarrow> nat list \<Rightarrow> Connection list" where
  "records_at h [] = []"
| "records_at h (p # ps) = (case h p of None \<Rightarrow> records_at h ps | Some c \<Rightarrow> c # records_at h ps)"

definition live_records :: "world \<Rightarrow> Connection list" where
  "live_records w = records_at (heap w) (connections w)"

definition read_fds :: "Connection \<Rightarrow> int set" where
  "read_fds c =
     (if state c = CONNECTED \<and> buffer_room (buffer (server c)) \<noteq> 0 then {sockfd (server c)} else {})
     \<union> (if (state c = CONNECTED \<or> state c = ACCEPTED) \<and> buffer_room (buffer (client c)) \<noteq> 0
        then {sockfd (client c)} else {})"

definition write_fds :: "Connection \<Rightarrow> int set" where
  "write_fds c =
     (if state c = CONNECTED \<and> buffer_len (buffer (client c)) \<noteq> 0 then {sockfd (server c)} else {})
     \<union> (if (state c = CONNECTED \<or> state c = ACCEPTED) \<and> buffer_len (buffer (server c)) \<noteq> 0
        then {sockfd (client c)} else {})
     \<union> (if state c = SERVER_CLOSED then {sockfd (client c)} else {})
     \<union> (if state c = CLIENT_CLOSED then {sockfd (server c)} else {})"

definition open_fds :: "Connection \<Rightarrow> int set" where
  "open_fds c =
     (if state c = CONNECTED \<or> state c = CLIENT_CLOSED then {sockfd (server c)} else {})
     \<union> (if state c = CONNECTED \<or> state c = ACCEPTED \<or> state c = SERVER_CLOSED
        then {sockfd (client c)} else {})"

text \<open>
  \<open>is_closed w p\<close>: the record at \<open>p\<close> is allocated and in state \<^verbatim>\<open>CLOSED\<close>.
  \<open>heap_inv I w\<close>: every allocated record satisfies \<open>I\<close>.
  \<open>stable e I\<close>: \<open>I\<close> survives every single field update that the program performs on a
  record. \<open>touches I p w w'\<close>: going from \<open>w\<close> to \<open>w'\<close> changed no record but the one at
  \<open>p\<close>, kept it allocated, kept \<open>I\<close> on it, and either left the queue alone or moved \<open>p\<close>
  to its head.
\<close>

definition is_closed :: "world \<Rightarrow> nat \<Rightarrow> bool" where
  "is_closed w p \<longleftrightarrow> (case heap w p of None \<Rightarrow> False | Some c \<Rightarrow> state c = CLOSED)"

definition heap_inv :: "(Connection \<Rightarrow> bool) \<Rightarrow> world \<Rightarrow> bool" where
  "heap_inv I w \<longleftrightarrow> (\<forall>x c. heap w x = Some c \<longrightarrow> I c)"

definition stable :: "env \<Rightarrow> (Connection \<Rightarrow> bool) \<Rightarrow> bool" where
  "stable e I \<longleftrightarrow>
     (\<forall>c. I c \<longrightarrow>
        (\<forall>b. I (c\<lparr>client := (client c)\<lparr>buffer := b\<rparr>\<rparr>)) \<and>
        (\<forall>b. I (c\<lparr>server := (server c)\<lparr>buffer := b\<rparr>\<rparr>)) \<and>
        (\<forall>fd. I (c\<lparr>server := (server c)\<lparr>sockfd := fd\<rparr>\<rparr>)) \<and>
        I (c\<lparr>state := CLIENT_CLOSED\<rparr>) \<and> I (c\<lparr>state := SERVER_CLOSED\<rparr>) \<and>
        I (c\<lparr>state := CLOSED\<rparr>) \<and>
        (\<forall>bs. 0 \<le> fst (parse_packet e (listener c) bs) \<longrightarrow>
           I (c\<lparr>hostname := snd (parse_packet e (listener c) bs), state := CONNECTED\<rparr>)))"

definition touches :: "(Connection \<Rightarrow> bool) \<Rightarrow> nat \<Rightarrow> world \<Rightarrow> world \<Rightarrow> bool" where
  "touches I p w w' \<longleftrightarrow>
     (\<forall>x. x \<noteq> p \<longrightarrow> heap w' x = heap w x) \<and>
     (connections w' = connections w \<or> connections w' = p # remove1 p (connections w)) \<and>
     (case heap w p of
        None \<Rightarrow> heap w' p = None
      | Some c \<Rightarrow> (\<exists>c'. heap w' p = Some c' \<and> (I c \<longrightarrow> I c')))"

text \<open>
  The invariants of reachable records that the statements below are about.
\<close>

definition fd_ok :: "Connection \<Rightarrow> bool" where
  "fd_ok c \<longleftrightarrow> (state c = ACCEPTED \<longrightarrow> sockfd (client c) \<le> FD_SETSIZE)"

definition hostname_state :: "Connection \<Rightarrow> bool" where
  "hostname_state c \<longleftrightarrow>
     (hostname c \<noteq> None \<longrightarrow>
        state c = CONNECTED \<or> state c = CLIENT_CLOSED \<or> state c = SERVER_CLOSED \<or> state c = CLOSED)"

definition hostname_nonempty :: "Connection \<Rightarrow> bool" where
  "hostname_nonempty c \<longleftrightarrow>
     (state c = CONNECTED \<longrightarrow> (\<exists>h. hostname c = Some h \<and> h \<noteq> []))"

subsection \<open>Concrete inputs\<close>

text \<open>
  A listener whose parser wants at least three bytes and takes them as the hostname, an
  upstream that refuses the hostname \<^verbatim>\<open>down\<close>, and a few worlds built from them.
\<close>

definition ex_parse :: "nat \<Rightarrow> char list \<Rightarrow> int \<times> string option" where
  "ex_parse l bs =
     (if bs = [] then (- 2, None)
      else if length bs < 3 then (- 1, None)
      else (int (length bs), Some bs))"

definition ex_env :: env where
  "ex_env = \<lparr>parse_packet = ex_parse,
             lookup_server_socket = (\<lambda>p l h. if h = Some ''down'' then - 1 else 6),
             client_recv = (\<lambda>p. Recv_data ''svc''),
             client_send = (\<lambda>p. Send_room 2),
             server_recv = (\<lambda>p. Recv_data []),
             server_send = (\<lambda>p. Send_errno 32),
             calloc_answer = Some 16,
             new_buffer_answer = (\<lambda>i. Some 8),
             accept_answer = 5\<rparr>"

definition ex_env_eof :: env where
  "ex_env_eof = ex_env\<lparr>client_recv := (\<lambda>p. Recv_data [])\<rparr>"

definition ex_env_again :: env where
  "ex_env_again = ex_env\<lparr>client_recv := (\<lambda>p. Recv_errno EAGAIN)\<rparr>"

definition ex_con :: "State \<Rightarrow> char list \<Rightarrow> char list \<Rightarrow> Connection" where
  "ex_con s cb sb =
     \<lparr>state = s,
      client = \<lparr>sockfd = 5, buffer = \<lparr>capacity = 8, content = cb\<rparr>\<rparr>,
      server = \<lparr>sockfd = 6, buffer = \<lparr>capacity = 8, content = sb\<rparr>\<rparr>,
      hostname = None, listener = 7\<rparr>"

definition ex_world :: "Connection \<Rightarrow> world" where
  "ex_world c = \<lparr>connections = [16], heap = [16 \<mapsto> c], trace = []\<rparr>"

definition ex_world2 :: "Connection \<Rightarrow> Connection \<Rightarrow> world" where
  "ex_world2 c1 c2 = \<lparr>connections = [16, 32], heap = [16 \<mapsto> c1, 32 \<mapsto> c2], trace = []\<rparr>"

definition ex_w1 :: world where
  "ex_w1 = accept_connection ex_env 7 init_connections"

definition ex_w2 :: world where
  "ex_w2 = handle_connections ex_env {5} {} ex_w1"

definition ex_w3 :: world where
  "ex_w3 = handle_connections ex_env_eof {5, 6} {} ex_w2"

definition ex_env_incomplete :: env where
  "ex_env_incomplete =
     ex_env\<lparr>parse_packet := (\<lambda>l bs. (- 1, None)), client_recv := (\<lambda>p. Recv_data ''12345678'')\<rparr>"

definition ex_w_full :: world where
  "ex_w_full = handle_connections ex_env_incomplete {5} {} ex_w1"

definition ex_env_empty_name :: env where
  "ex_env_empty_name = ex_env\<lparr>parse_packet := (\<lambda>l bs. (0, Some []))\<rparr>"

definition ex_w_empty_name :: world where
  "ex_w_empty_name = handle_connections ex_env_empty_name {5} {} ex_w1"

definition ex_w_1024 :: world where
  "ex_w_1024 = accept_connection (ex_env\<lparr>accept_answer := 1024\<rparr>) 7 init_connections"

section \<open>Basic facts\<close>

lemma store_same: "heap w p = Some c \<Longrightarrow> store p c w = w"
  by (simp add: store_def fun_upd_idem)

lemma heap_store [simp]: "heap (store p c w) = (heap w)(p \<mapsto> c)"
  and connections_store [simp]: "connections (store p c w) = connections w"
  and trace_store [simp]: "trace (store p c w) = trace w"
  by (simp_all add: store_def)

lemma heap_sys_close [simp]: "heap (sys_close fd w) = heap w"
  and connections_sys_close [simp]: "connections (sys_close fd w) = connections w"
  and trace_sys_close [simp]: "trace (sys_close fd w) = trace w @ [Close fd]"
  by (simp_all add: sys_close_def)

lemma heap_free_string [simp]: "heap (free_string h w) = heap w"
  and connections_free_string [simp]: "connections (free_string h w) = connections w"
  and trace_free_string [simp]:
    "trace (free_string h w) = trace w @ (case h of None \<Rightarrow> [] | Some s \<Rightarrow> [Free s])"
  by (simp_all add: free_string_def split: option.splits)

lemma heap_move_to_head [simp]: "heap (move_to_head_of_queue p w) = heap w"
  and connections_move_to_head [simp]:
    "connections (move_to_head_of_queue p w) = p # remove1 p (connections w)"
  and trace_move_to_head [simp]: "trace (move_to_head_of_queue p w) = trace w"
  by (simp_all add: move_to_head_of_queue_def TAILQ_INSERT_HEAD_def TAILQ_REMOVE_def)

lemma close_client_socket_Some:
  "heap w p = Some c \<Longrightarrow>
   close_client_socket p w =
     store p (c\<lparr>state := (if state c = CONNECTED then CLIENT_CLOSED else CLOSED)\<rparr>)
       (sys_close (sockfd (client c)) w)"
  by (simp add: close_client_socket_def)

lemma close_server_socket_Some:
  "heap w p = Some c \<Longrightarrow>
   close_server_socket p w =
     store p (c\<lparr>state := (if state c = CLIENT_CLOSED then CLOSED else SERVER_CLOSED)\<rparr>)
       (sys_close (sockfd (server c)) w)"
  by (simp add: close_server_socket_def)

lemma close_connection_ACCEPTED:
  "heap w p = Some c \<Longrightarrow> state c = ACCEPTED \<Longrightarrow>
   close_connection p w = store p (c\<lparr>state := CLOSED\<rparr>) (sys_close (sockfd (client c)) w)"
  by (simp add: close_connection_def close_client_socket_Some)

lemma close_connection_CLOSED:
  "heap w p = Some c \<Longrightarrow> state c = CLOSED \<Longrightarrow> close_connection p w = w"
  by (simp add: close_connection_def)

lemma connections_close_client_socket [simp]:
  "connections (close_client_socket p w) = connections w"
  by (simp add: close_client_socket_def split: option.splits)

lemma connections_close_server_socket [simp]:
  "connections (close_server_socket p w) = connections w"
  by (simp add: close_server_socket_def split: option.splits)

lemma connections_close_connection [simp]:
  "connections (close_connection p w) = connections w"
  by (simp add: close_connection_def Let_def split: option.splits)

lemma connections_free_connection [simp]:
  "connections (free_connection p w) = connections w"
  by (simp add: free_connection_def Let_def split: option.splits)

lemma connections_client_hello [simp]:
  "connections (handle_connection_client_hello e p w) = connections w"
  by (simp add: handle_connection_client_hello_def Let_def split: option.splits prod.splits)

lemma free_connection_CLOSED:
  "heap w p = Some c \<Longrightarrow> state c = CLOSED \<Longrightarrow>
   free_connection p w = (free_string (hostname c) w)\<lparr>heap := (heap w)(p := None)\<rparr>"
  by (simp add: free_connection_def close_connection_CLOSED)

lemma client_rx_result:
  assumes "heap w p = Some con"
    and "buffer_recv (buffer (client con)) (client_recv e p) = (n, errno, b)"
  shows "handle_connection_client_rx e p w =
     (if (n < 0 \<and> \<not> IS_TEMPORARY_SOCKERR errno) \<or> n = 0
      then (1, store p (con\<lparr>client := (client con)\<lparr>buffer := b\<rparr>\<rparr>) w)
      else (0, move_to_head_of_queue p
                (if state con = ACCEPTED
                 then handle_connection_client_hello e p
                        (store p (con\<lparr>client := (client con)\<lparr>buffer := b\<rparr>\<rparr>) w)
                 else store p (con\<lparr>client := (client con)\<lparr>buffer := b\<rparr>\<rparr>) w)))"
  using assms by (auto simp: handle_connection_client_rx_def Let_def)

lemma server_rx_result:
  assumes "heap w p = Some con"
    and "buffer_recv (buffer (server con)) (server_recv e p) = (n, errno, b)"
  shows "handle_connection_server_rx e p w =
     (if (n < 0 \<and> \<not> IS_TEMPORARY_SOCKERR errno) \<or> n = 0
      then (1, store p (con\<lparr>server := (server con)\<lparr>buffer := b\<rparr>\<rparr>) w)
      else (0, move_to_head_of_queue p
                 (store p (con\<lparr>server := (server con)\<lparr>buffer := b\<rparr>\<rparr>) w)))"
  using assms by (auto simp: handle_connection_server_rx_def Let_def)

lemma client_tx_result:
  assumes "heap w p = Some con"
    and "buffer_send (buffer (server con)) (client_send e p) = (n, errno, b)"
  shows "handle_connection_client_tx e p w =
     (if n < 0 \<and> \<not> IS_TEMPORARY_SOCKERR errno
      then (1, store p (con\<lparr>server := (server con)\<lparr>buffer := b\<rparr>\<rparr>) w)
      else (0, move_to_head_of_queue p
                 (store p (con\<lparr>server := (server con)\<lparr>buffer := b\<rparr>\<rparr>) w)))"
  using assms by (auto simp: handle_connection_client_tx_def Let_def)

lemma server_tx_result:
  assumes "heap w p = Some con"
    and "buffer_send (buffer (client con)) (server_send e p) = (n, errno, b)"
  shows "handle_connection_server_tx e p w =
     (if n < 0 \<and> \<not> IS_TEMPORARY_SOCKERR errno
      then (1, store p (con\<lparr>client := (client con)\<lparr>buffer := b\<rparr>\<rparr>) w)
      else (0, move_to_head_of_queue p
                 (store p (con\<lparr>client := (client con)\<lparr>buffer := b\<rparr>\<rparr>) w)))"
  using assms by (auto simp: handle_connection_server_tx_def Let_def)

lemma client_hello_result:
  assumes "heap w p = Some con"
    and "parse_packet e (listener con) (buffer_peek (buffer (client con)) 1460) = (r, h)"
    and "lookup_server_socket e p (listener con) h = fd"
  shows "handle_connection_client_hello e p w =
     (if r = - 1 then w
      else if r \<le> - 2 then close_connection p w
      else if fd < 0
      then free_string h (close_connection p
             (store p (con\<lparr>server := (server con)\<lparr>sockfd := fd\<rparr>\<rparr>) w))
      else if fd > FD_SETSIZE
      then free_string h (close_connection p (close_server_socket p
             (store p (con\<lparr>server := (server con)\<lparr>sockfd := fd\<rparr>\<rparr>) w)))
      else store p (con\<lparr>server := (server con)\<lparr>sockfd := fd\<rparr>, hostname := h,
                        state := CONNECTED\<rparr>) w)"
  using assms by (auto simp: handle_connection_client_hello_def Let_def store_def)

lemma buffer_send_len:
  "buffer_send b a = (n, errno, b') \<Longrightarrow> buffer_len b' \<le> buffer_len b"
  by (auto simp: buffer_send_def buffer_len_def Let_def split: send_answer.splits)

lemma FD_SETSIZE_nonneg: "0 \<le> FD_SETSIZE"
  by (simp add: FD_SETSIZE_def)

section \<open>What one step does to the world\<close>

lemma touches_refl: "touches I p w w"
  by (simp add: touches_def split: option.splits)

lemma touches_trans:
  assumes "touches I p w w1" and "touches I p w1 w2"
  shows "touches I p w w2"
proof -
  have h: "\<forall>x. x \<noteq> p \<longrightarrow> heap w2 x = heap w x"
    using assms by (simp add: touches_def)
  have q: "connections w2 = connections w \<or> connections w2 = p # remove1 p (connections w)"
    using assms by (auto simp: touches_def)
  have r: "case heap w p of None \<Rightarrow> heap w2 p = None
           | Some c \<Rightarrow> (\<exists>c'. heap w2 p = Some c' \<and> (I c \<longrightarrow> I c'))"
    using assms by (auto simp: touches_def split: option.splits)
  from h q r show ?thesis by (simp add: touches_def)
qed

lemma touches_store:
  "heap w p = Some c \<Longrightarrow> (I c \<Longrightarrow> I c') \<Longrightarrow> touches I p w (store p c' w)"
  by (auto simp: touches_def)

lemma touches_sys_close: "touches I p w (sys_close fd w)"
  by (simp add: touches_def split: option.splits)

lemma touches_free_string: "touches I p w (free_string h w)"
  by (simp add: touches_def split: option.splits)

lemma touches_move_to_head: "touches I p w (move_to_head_of_queue p w)"
  by (simp add: touches_def split: option.splits)

lemma touches_close_client_socket:
  assumes "stable e I"
  shows "touches I p w (close_client_socket p w)"
proof (cases "heap w p")
  case None
  then show ?thesis by (simp add: close_client_socket_def touches_refl)
next
  case (Some c)
  have "I c \<Longrightarrow> I (c\<lparr>state := (if state c = CONNECTED then CLIENT_CLOSED else CLOSED)\<rparr>)"
    using assms by (simp add: stable_def)
  then show ?thesis
    using Some by (auto simp: close_client_socket_Some touches_def)
qed

lemma touches_close_server_socket:
  assumes "stable e I"
  shows "touches I p w (close_server_socket p w)"
proof (cases "heap w p")
  case None
  then show ?thesis by (simp add: close_server_socket_def touches_refl)
next
  case (Some c)
  have "I c \<Longrightarrow> I (c\<lparr>state := (if state c = CLIENT_CLOSED then CLOSED else SERVER_CLOSED)\<rparr>)"
    using assms by (simp add: stable_def)
  then show ?thesis
    using Some by (auto simp: close_server_socket_Some touches_def)
qed

lemma touches_close_connection:
  assumes "stable e I"
  shows "touches I p w (close_connection p w)"
proof -
  define w1 where "w1 = (case heap w p of None \<Rightarrow> w | Some c \<Rightarrow>
      if state c = CONNECTED \<or> state c = ACCEPTED \<or> state c = SERVER_CLOSED
      then close_client_socket p w else w)"
  have 1: "touches I p w w1"
    unfolding w1_def
    by (auto simp: touches_refl touches_close_client_socket [OF assms] split: option.splits)
  have 2: "touches I p w1 (case heap w1 p of None \<Rightarrow> w1 | Some c \<Rightarrow>
      if state c = CONNECTED \<or> state c = CLIENT_CLOSED then close_server_socket p w1 else w1)"
    by (auto simp: touches_refl touches_close_server_socket [OF assms] split: option.splits)
  have "close_connection p w = (case heap w1 p of None \<Rightarrow> w1 | Some c \<Rightarrow>
      if state c = CONNECTED \<or> state c = CLIENT_CLOSED then close_server_socket p w1 else w1)"
    unfolding close_connection_def w1_def Let_def by (rule refl)
  with touches_trans [OF 1 2] show ?thesis by simp
qed

lemma touches_client_hello:
  assumes "stable e I"
  shows "touches I p w (handle_connection_client_hello e p w)"
proof (cases "heap w p")
  case None
  then show ?thesis by (simp add: handle_connection_client_hello_def touches_refl)
next
  case (Some con)
  obtain r h where ph: "parse_packet e (listener con) (buffer_peek (buffer (client con)) 1460) = (r, h)"
    by (cases "parse_packet e (listener con) (buffer_peek (buffer (client con)) 1460)") auto
  define fd where "fd = lookup_server_socket e p (listener con) h"
  define con1 where "con1 = con\<lparr>server := (server con)\<lparr>sockfd := fd\<rparr>\<rparr>"
  have s1: "touches I p w (store p con1 w)"
    using assms by (intro touches_store [OF Some]) (simp add: con1_def stable_def)
  have cc: "\<And>v. touches I p v (close_connection p v)"
    by (rule touches_close_connection [OF assms])
  have cs: "\<And>v. touches I p v (close_server_socket p v)"
    by (rule touches_close_server_socket [OF assms])
  have fs: "\<And>v. touches I p v (free_string h v)"
    by (rule touches_free_string)
  have a: "touches I p w (free_string h (close_connection p (store p con1 w)))"
    by (rule touches_trans [OF s1 touches_trans [OF cc fs]])
  have b: "touches I p w
      (free_string h (close_connection p (close_server_socket p (store p con1 w))))"
    by (rule touches_trans [OF s1 touches_trans [OF cs touches_trans [OF cc fs]]])
  have c: "touches I p w (store p (con\<lparr>server := (server con)\<lparr>sockfd := fd\<rparr>, hostname := h,
                        state := CONNECTED\<rparr>) w)" if "0 \<le> r"
  proof (rule touches_store [OF Some])
    assume "I con"
    then have "I con1" using assms by (simp add: stable_def con1_def)
    moreover have "0 \<le> fst (parse_packet e (listener con1) (buffer_peek (buffer (client con)) 1460))"
      using that ph by (simp add: con1_def)
    ultimately have "I (con1\<lparr>hostname := snd (parse_packet e (listener con1)
         (buffer_peek (buffer (client con)) 1460)), state := CONNECTED\<rparr>)"
      using assms unfolding stable_def by blast
    then show "I (con\<lparr>server := (server con)\<lparr>sockfd := fd\<rparr>, hostname := h,
                        state := CONNECTED\<rparr>)"
      using ph by (simp add: con1_def)
  qed
  show ?thesis
    using a b c cc [of w]
    by (auto simp: client_hello_result [OF Some ph fd_def [symmetric]] touches_refl con1_def)
qed

lemma touches_client_rx:
  assumes "stable e I"
  shows "touches I p w (snd (handle_connection_client_rx e p w))"
proof (cases "heap w p")
  case None
  then show ?thesis by (simp add: handle_connection_client_rx_def touches_refl)
next
  case (Some con)
  obtain n errno b where r: "buffer_recv (buffer (client con)) (client_recv e p) = (n, errno, b)"
    by (cases "buffer_recv (buffer (client con)) (client_recv e p)") auto
  define w1 where "w1 = store p (con\<lparr>client := (client con)\<lparr>buffer := b\<rparr>\<rparr>) w"
  have 1: "touches I p w w1"
    unfolding w1_def using assms by (intro touches_store [OF Some]) (simp add: stable_def)
  have 2: "touches I p w (move_to_head_of_queue p w1)"
    by (rule touches_trans [OF 1 touches_move_to_head])
  have 3: "touches I p w (move_to_head_of_queue p (handle_connection_client_hello e p w1))"
    by (rule touches_trans [OF 1 touches_trans [OF touches_client_hello [OF assms]
          touches_move_to_head]])
  show ?thesis
    using 1 2 3 by (simp add: client_rx_result [OF Some r] w1_def)
qed

lemma touches_server_rx:
  assumes "stable e I"
  shows "touches I p w (snd (handle_connection_server_rx e p w))"
proof (cases "heap w p")
  case None
  then show ?thesis by (simp add: handle_connection_server_rx_def touches_refl)
next
  case (Some con)
  obtain n errno b where r: "buffer_recv (buffer (server con)) (server_recv e p) = (n, errno, b)"
    by (cases "buffer_recv (buffer (server con)) (server_recv e p)") auto
  define w1 where "w1 = store p (con\<lparr>server := (server con)\<lparr>buffer := b\<rparr>\<rparr>) w"
  have 1: "touches I p w w1"
    unfolding w1_def using assms by (intro touches_store [OF Some]) (simp add: stable_def)
  have 2: "touches I p w (move_to_head_of_queue p w1)"
    by (rule touches_trans [OF 1 touches_move_to_head])
  show ?thesis
    using 1 2 by (simp add: server_rx_result [OF Some r] w1_def)
qed

lemma touches_client_tx:
  assumes "stable e I"
  shows "touches I p w (snd (handle_connection_client_tx e p w))"
proof (cases "heap w p")
  case None
  then show ?thesis by (simp add: handle_connection_client_tx_def touches_refl)
next
  case (Some con)
  obtain n errno b where r: "buffer_send (buffer (server con)) (client_send e p) = (n, errno, b)"
    by (cases "buffer_send (buffer (server con)) (client_send e p)") auto
  define w1 where "w1 = store p (con\<lparr>server := (server con)\<lparr>buffer := b\<rparr>\<rparr>) w"
  have 1: "touches I p w w1"
    unfolding w1_def using assms by (intro touches_store [OF Some]) (simp add: stable_def)
  have 2: "touches I p w (move_to_head_of_queue p w1)"
    by (rule touches_trans [OF 1 touches_move_to_head])
  show ?thesis
    using 1 2 by (simp add: client_tx_result [OF Some r] w1_def)
qed

lemma touches_server_tx:
  assumes "stable e I"
  shows "touches I p w (snd (handle_connection_server_tx e p w))"
proof (cases "heap w p")
  case None
  then show ?thesis by (simp add: handle_connection_server_tx_def touches_refl)
next
  case (Some con)
  obtain n errno b where r: "buffer_send (buffer (client con)) (server_send e p) = (n, errno, b)"
    by (cases "buffer_send (buffer (client con)) (server_send e p)") auto
  define w1 where "w1 = store p (con\<lparr>client := (client con)\<lparr>buffer := b\<rparr>\<rparr>) w"
  have 1: "touches I p w w1"
    unfolding w1_def using assms by (intro touches_store [OF Some]) (simp add: stable_def)
  have 2: "touches I p w (move_to_head_of_queue p w1)"
    by (rule touches_trans [OF 1 touches_move_to_head])
  show ?thesis
    using 1 2 by (simp add: server_tx_result [OF Some r] w1_def)
qed

lemma touches_server_rx_step:
  "stable e I \<Longrightarrow> touches I p w (snd (server_rx_step e rfds p w))"
  by (simp add: server_rx_step_def touches_refl touches_server_rx split: option.splits)

lemma touches_client_rx_step:
  "stable e I \<Longrightarrow> touches I p w (snd (client_rx_step e rfds p w))"
  by (simp add: client_rx_step_def touches_refl touches_client_rx split: option.splits)

lemma touches_server_tx_step:
  "stable e I \<Longrightarrow> touches I p (snd ew) (snd (server_tx_step e wfds p ew))"
  by (cases ew) (simp add: server_tx_step_def touches_refl touches_server_tx split: option.splits)

lemma touches_client_tx_step:
  "stable e I \<Longrightarrow> touches I p (snd ew) (snd (client_tx_step e wfds p ew))"
  by (cases ew) (simp add: client_tx_step_def touches_refl touches_client_tx split: option.splits)

lemma touches_server_side:
  assumes "stable e I"
  shows "touches I p w (server_side e rfds wfds p w)"
proof -
  obtain err w1 where s: "server_tx_step e wfds p (server_rx_step e rfds p w) = (err, w1)"
    by (cases "server_tx_step e wfds p (server_rx_step e rfds p w)") auto
  have "touches I p w (snd (server_tx_step e wfds p (server_rx_step e rfds p w)))"
    by (rule touches_trans [OF touches_server_rx_step [OF assms] touches_server_tx_step [OF assms]])
  then have 1: "touches I p w w1" by (simp add: s)
  have 2: "touches I p w (close_server_socket p w1)"
    by (rule touches_trans [OF 1 touches_close_server_socket [OF assms]])
  show ?thesis using 1 2 by (simp add: server_side_def s)
qed

lemma touches_client_side:
  assumes "stable e I"
  shows "touches I p w (client_side e rfds wfds p w)"
proof -
  obtain err w1 where s: "client_tx_step e wfds p (client_rx_step e rfds p w) = (err, w1)"
    by (cases "client_tx_step e wfds p (client_rx_step e rfds p w)") auto
  have "touches I p w (snd (client_tx_step e wfds p (client_rx_step e rfds p w)))"
    by (rule touches_trans [OF touches_client_rx_step [OF assms] touches_client_tx_step [OF assms]])
  then have 1: "touches I p w w1" by (simp add: s)
  have 2: "touches I p w (close_client_socket p w1)"
    by (rule touches_trans [OF 1 touches_close_client_socket [OF assms]])
  show ?thesis using 1 2 by (simp add: client_side_def s)
qed

lemma touches_server_closed_case:
  assumes "stable e I"
  shows "touches I p w (server_closed_case e wfds p w)"
proof -
  obtain err w1 where s: "client_tx_step e wfds p (0, w) = (err, w1)"
    by (cases "client_tx_step e wfds p (0, w)") auto
  have "touches I p (snd (0::int, w)) (snd (client_tx_step e wfds p (0, w)))"
    by (rule touches_client_tx_step [OF assms])
  then have 1: "touches I p w w1" by (simp add: s)
  have 2: "touches I p w (close_client_socket p w1)"
    by (rule touches_trans [OF 1 touches_close_client_socket [OF assms]])
  show ?thesis using 1 2 by (simp add: server_closed_case_def s split: option.splits)
qed

lemma touches_client_closed_case:
  assumes "stable e I"
  shows "touches I p w (client_closed_case e wfds p w)"
proof -
  obtain err w1 where s: "server_tx_step e wfds p (0, w) = (err, w1)"
    by (cases "server_tx_step e wfds p (0, w)") auto
  have "touches I p (snd (0::int, w)) (snd (server_tx_step e wfds p (0, w)))"
    by (rule touches_server_tx_step [OF assms])
  then have 1: "touches I p w w1" by (simp add: s)
  have 2: "touches I p w (close_server_socket p w1)"
    by (rule touches_trans [OF 1 touches_close_server_socket [OF assms]])
  show ?thesis using 1 2 by (simp add: client_closed_case_def s split: option.splits)
qed

lemma touches_handle_connection:
  assumes "stable e I" and "heap w p = Some c" and "state c \<noteq> CLOSED"
  shows "touches I p w (handle_connection e rfds wfds p w)"
proof -
  have "touches I p w (client_side e rfds wfds p (server_side e rfds wfds p w))"
    by (rule touches_trans [OF touches_server_side [OF assms(1)] touches_client_side [OF assms(1)]])
  then show ?thesis
    using assms(2,3)
    by (cases "state c")
      (simp_all add: handle_connection_def touches_refl touches_client_side [OF assms(1)]
        touches_server_closed_case [OF assms(1)] touches_client_closed_case [OF assms(1)])
qed

lemma handle_connection_CLOSED:
  assumes "heap w p = Some c" and "state c = CLOSED"
  shows "handle_connection e rfds wfds p w =
           (free_string (hostname c) (TAILQ_REMOVE p w))\<lparr>heap := (heap w)(p := None)\<rparr>"
proof -
  have h: "heap (TAILQ_REMOVE p w) p = Some c"
    using assms(1) by (simp add: TAILQ_REMOVE_def)
  have "heap (TAILQ_REMOVE p w) = heap w"
    by (simp add: TAILQ_REMOVE_def)
  then show ?thesis
    using assms by (simp add: handle_connection_def free_connection_CLOSED [OF h assms(2)])
qed

lemma heap_handle_connection_CLOSED:
  "heap w p = Some c \<Longrightarrow> state c = CLOSED \<Longrightarrow>
   heap (handle_connection e rfds wfds p w) = (heap w)(p := None)"
  by (simp add: handle_connection_CLOSED)

lemma connections_handle_connection_CLOSED:
  "heap w p = Some c \<Longrightarrow> state c = CLOSED \<Longrightarrow>
   connections (handle_connection e rfds wfds p w) = remove1 p (connections w)"
  by (simp add: handle_connection_CLOSED TAILQ_REMOVE_def)

lemma stable_True: "stable e (\<lambda>c. True)"
  by (simp add: stable_def)

lemma handle_connection_None:
  "heap w p = None \<Longrightarrow> handle_connection e rfds wfds p w = w"
  by (simp add: handle_connection_def)

lemma heap_handle_connection_other:
  assumes "x \<noteq> p"
  shows "heap (handle_connection e rfds wfds p w) x = heap w x"
proof (cases "heap w p")
  case None
  then show ?thesis by (simp add: handle_connection_None)
next
  case (Some c)
  show ?thesis
  proof (cases "state c = CLOSED")
    case True
    then show ?thesis using Some assms by (simp add: heap_handle_connection_CLOSED)
  next
    case False
    from touches_handle_connection [OF stable_True Some False, of e rfds wfds] assms
    show ?thesis by (simp add: touches_def)
  qed
qed

lemma heap_free_connection: "heap (free_connection p w) = (heap w)(p := None)"
proof -
  let ?w1 = "close_connection p w"
  have t: "touches (\<lambda>c. True) p w ?w1"
    by (rule touches_close_connection [OF stable_True])
  have o: "\<And>x. x \<noteq> p \<Longrightarrow> heap ?w1 x = heap w x"
    using t by (simp add: touches_def)
  have n: "heap w p = None \<Longrightarrow> heap ?w1 p = None"
    using t by (simp add: touches_def)
  show ?thesis
  proof (rule ext)
    fix x
    show "heap (free_connection p w) x = ((heap w)(p := None)) x"
      using o [of x] n
      by (cases "heap ?w1 p"; cases "heap w p"; cases "x = p")
         (auto simp: free_connection_def Let_def)
  qed
qed

section \<open>The dispatch loop\<close>

lemma foreach_append:
  "TAILQ_FOREACH_SAFE body (xs @ ys) w = TAILQ_FOREACH_SAFE body ys (TAILQ_FOREACH_SAFE body xs w)"
  by (induction xs arbitrary: w) simp_all

lemma heap_foreach_other:
  "x \<notin> set ps \<Longrightarrow>
   heap (TAILQ_FOREACH_SAFE (handle_connection e rfds wfds) ps w) x = heap w x"
  by (induction ps arbitrary: w) (simp_all add: heap_handle_connection_other)

lemma heap_inv_handle_connection:
  assumes "stable e I" and "heap_inv I w"
  shows "heap_inv I (handle_connection e rfds wfds p w)"
proof (cases "heap w p")
  case None
  then show ?thesis using assms(2) by (simp add: handle_connection_None)
next
  case (Some c)
  show ?thesis
  proof (cases "state c = CLOSED")
    case True
    then show ?thesis
      using Some assms(2) by (auto simp: heap_inv_def heap_handle_connection_CLOSED split: if_splits)
  next
    case False
    have t: "touches I p w (handle_connection e rfds wfds p w)"
      by (rule touches_handle_connection [OF assms(1) Some False])
    have "I c" using assms(2) Some by (simp add: heap_inv_def)
    show ?thesis
      unfolding heap_inv_def
    proof (intro allI impI)
      fix x c'
      assume a: "heap (handle_connection e rfds wfds p w) x = Some c'"
      show "I c'"
      proof (cases "x = p")
        case True
        with t a Some \<open>I c\<close> show ?thesis by (auto simp: touches_def)
      next
        case False
        with t a have "heap w x = Some c'" by (simp add: touches_def)
        with assms(2) show ?thesis by (simp add: heap_inv_def)
      qed
    qed
  qed
qed

lemma heap_inv_foreach:
  "stable e I \<Longrightarrow> heap_inv I w \<Longrightarrow>
   heap_inv I (TAILQ_FOREACH_SAFE (handle_connection e rfds wfds) ps w)"
  by (induction ps arbitrary: w) (simp_all add: heap_inv_handle_connection)

lemma heap_inv_handle_connections:
  "stable e I \<Longrightarrow> heap_inv I w \<Longrightarrow> heap_inv I (handle_connections e rfds wfds w)"
  by (simp add: handle_connections_def heap_inv_foreach)

lemma handle_connection_queue:
  assumes "distinct (connections w)" and "heap w p \<noteq> None"
  shows "distinct (connections (handle_connection e rfds wfds p w))"
    and "p \<in> set (connections w) \<Longrightarrow> set (connections (handle_connection e rfds wfds p w)) =
           (if is_closed w p then set (connections w) - {p} else set (connections w))"
    and "(heap (handle_connection e rfds wfds p w) p = None) = is_closed w p"
proof -
  obtain c where Some: "heap w p = Some c" using assms(2) by auto
  let ?w' = "handle_connection e rfds wfds p w"
  have "distinct (connections ?w') \<and>
        (p \<in> set (connections w) \<longrightarrow> set (connections ?w') =
           (if is_closed w p then set (connections w) - {p} else set (connections w))) \<and>
        ((heap ?w' p = None) = is_closed w p)"
  proof (cases "state c = CLOSED")
    case True
    then show ?thesis
      using Some assms(1)
      by (simp add: connections_handle_connection_CLOSED heap_handle_connection_CLOSED
          is_closed_def)
  next
    case False
    from touches_handle_connection [OF stable_True Some False, of e rfds wfds]
    have q: "connections ?w' = connections w \<or> connections ?w' = p # remove1 p (connections w)"
      and h: "heap ?w' p \<noteq> None"
      using Some by (auto simp: touches_def)
    have nc: "\<not> is_closed w p" using Some False by (simp add: is_closed_def)
    from q show ?thesis
    proof
      assume "connections ?w' = connections w"
      then show ?thesis using assms(1) h nc by simp
    next
      assume "connections ?w' = p # remove1 p (connections w)"
      then show ?thesis using assms(1) h nc by auto
    qed
  qed
  then show "distinct (connections ?w')"
    and "p \<in> set (connections w) \<Longrightarrow> set (connections ?w') =
           (if is_closed w p then set (connections w) - {p} else set (connections w))"
    and "(heap ?w' p = None) = is_closed w p"
    by simp_all
qed

lemma is_closed_handle_connection_other:
  "x \<noteq> p \<Longrightarrow> is_closed (handle_connection e rfds wfds p w) x = is_closed w x"
  by (simp add: is_closed_def heap_handle_connection_other)

lemma foreach_queue:
  assumes "distinct ps" and "distinct (connections w)" and "set ps \<subseteq> set (connections w)"
    and "\<forall>p \<in> set ps. heap w p \<noteq> None"
  shows "distinct (connections (TAILQ_FOREACH_SAFE (handle_connection e rfds wfds) ps w))
       \<and> set (connections (TAILQ_FOREACH_SAFE (handle_connection e rfds wfds) ps w))
           = set (connections w) - {p \<in> set ps. is_closed w p}
       \<and> (\<forall>p \<in> set ps. (heap (TAILQ_FOREACH_SAFE (handle_connection e rfds wfds) ps w) p = None)
              = is_closed w p)"
  using assms
proof (induction ps arbitrary: w)
  case Nil
  then show ?case by simp
next
  case (Cons p ps)
  let ?w1 = "handle_connection e rfds wfds p w"
  let ?w2 = "TAILQ_FOREACH_SAFE (handle_connection e rfds wfds) ps ?w1"
  have pnot: "p \<notin> set ps" and dps: "distinct ps" using Cons.prems(1) by simp_all
  have pin: "p \<in> set (connections w)" and hp: "heap w p \<noteq> None"
    using Cons.prems(3,4) by simp_all
  note hq = handle_connection_queue [OF Cons.prems(2) hp, of e rfds wfds]
  have sub: "set ps \<subseteq> set (connections ?w1)"
    using hq(2) [OF pin] Cons.prems(3) pnot by auto
  have al: "\<forall>x \<in> set ps. heap ?w1 x \<noteq> None"
  proof
    fix x assume x: "x \<in> set ps"
    then have "x \<noteq> p" using pnot by auto
    then have "heap ?w1 x = heap w x" by (rule heap_handle_connection_other)
    then show "heap ?w1 x \<noteq> None" using Cons.prems(4) x by simp
  qed
  note IH = Cons.IH [OF dps hq(1) sub al]
  have cl: "is_closed ?w1 x = is_closed w x" if "x \<in> set ps" for x
  proof -
    have "x \<noteq> p" using that pnot by auto
    then show ?thesis by (rule is_closed_handle_connection_other)
  qed
  have 1: "distinct (connections ?w2)" using IH by simp
  have "set (connections ?w2) = set (connections ?w1) - {x \<in> set ps. is_closed ?w1 x}"
    using IH by simp
  also have "{x \<in> set ps. is_closed ?w1 x} = {x \<in> set ps. is_closed w x}"
    using cl by auto
  finally have 2: "set (connections ?w2) = set (connections w) - {x \<in> set (p # ps). is_closed w x}"
    using hq(2) [OF pin] by auto
  have "heap ?w2 p = heap ?w1 p" using pnot by (simp add: heap_foreach_other)
  then have 3: "(heap ?w2 p = None) = is_closed w p" using hq(3) by simp
  have 4: "\<forall>x \<in> set ps. (heap ?w2 x = None) = is_closed w x"
    using IH cl by simp
  from 1 2 3 4 show ?case by simp
qed

lemma handle_connection_keeps_successors:
  assumes "connections w = pre @ p # rest" and "p \<notin> set pre"
  shows "\<exists>pre'. connections (handle_connection e rfds wfds p w) = pre' @ rest
           \<and> set pre' \<subseteq> insert p (set pre)"
proof (cases "heap w p")
  case None
  then have "connections (handle_connection e rfds wfds p w) = (pre @ [p]) @ rest"
    using assms(1) by (simp add: handle_connection_None)
  then show ?thesis by (intro exI [of _ "pre @ [p]"]) auto
next
  case (Some c)
  have r: "remove1 p (pre @ p # rest) = pre @ rest"
    using assms(2) by (simp add: remove1_append)
  show ?thesis
  proof (cases "state c = CLOSED")
    case True
    then have "connections (handle_connection e rfds wfds p w) = pre @ rest"
      using Some assms(1) r by (simp add: connections_handle_connection_CLOSED)
    then show ?thesis by (intro exI [of _ pre]) auto
  next
    case False
    from touches_handle_connection [OF stable_True Some False, of e rfds wfds]
    have "connections (handle_connection e rfds wfds p w) = (pre @ [p]) @ rest
        \<or> connections (handle_connection e rfds wfds p w) = (p # pre) @ rest"
      using assms(1) r by (auto simp: touches_def)
    then show ?thesis
    proof
      assume "connections (handle_connection e rfds wfds p w) = (pre @ [p]) @ rest"
      then show ?thesis by (intro exI [of _ "pre @ [p]"]) auto
    next
      assume "connections (handle_connection e rfds wfds p w) = (p # pre) @ rest"
      then show ?thesis by (intro exI [of _ "p # pre"]) auto
    qed
  qed
qed

lemma server_closed_case_result:
  assumes "heap w p = Some c" and "state c = SERVER_CLOSED"
  shows "\<exists>c'. heap (handle_connection e rfds wfds p w) p = Some c'
           \<and> buffer_len (buffer (server c')) \<le> buffer_len (buffer (server c))
           \<and> buffer (client c') = buffer (client c)
           \<and> (state c' = SERVER_CLOSED \<or> state c' = CLOSED)
           \<and> (buffer_len (buffer (server c')) = 0 \<longrightarrow> state c' = CLOSED)"
proof -
  obtain n errno b where r: "buffer_send (buffer (server c)) (client_send e p) = (n, errno, b)"
    by (cases "buffer_send (buffer (server c)) (client_send e p)") auto
  have le: "buffer_len b \<le> buffer_len (buffer (server c))"
    by (rule buffer_send_len [OF r])
  have hc: "handle_connection e rfds wfds p w = server_closed_case e wfds p w"
    using assms by (simp add: handle_connection_def)
  show ?thesis
    unfolding hc using assms le
    by (auto simp: server_closed_case_def client_tx_step_def client_tx_result [OF assms(1) r]
        close_client_socket_Some)
qed

section \<open>Reachable worlds\<close>

lemma stable_fd_ok: "stable e fd_ok"
  by (simp add: stable_def fd_ok_def)

lemma stable_hostname_state: "stable e hostname_state"
  by (simp add: stable_def hostname_state_def)

lemma stable_hostname_nonempty: "parser_ok e \<Longrightarrow> stable e hostname_nonempty"
  by (auto simp: stable_def hostname_nonempty_def parser_ok_def)

lemma heap_inv_init: "heap_inv I init_connections"
  by (simp add: heap_inv_def init_connections_def)

lemma heap_inv_remove: "heap_inv I w \<Longrightarrow> heap w' = (heap w)(p := None) \<Longrightarrow> heap_inv I w'"
  by (auto simp: heap_inv_def split: if_splits)

lemma heap_inv_free_connections_loop:
  "heap_inv I w \<Longrightarrow> heap_inv I (free_connections_loop ps w)"
proof (induction ps arbitrary: w)
  case Nil
  then show ?case by simp
next
  case (Cons p ps)
  have "heap_inv I (free_connection p (TAILQ_REMOVE p w))"
    by (rule heap_inv_remove [OF Cons.prems]) (simp add: heap_free_connection TAILQ_REMOVE_def)
  then show ?case by (simp add: Cons.IH)
qed

lemma accept_connection_heap:
  assumes "heap (accept_connection e l w) x = Some c"
  shows "heap w x = Some c
       \<or> (state c = ACCEPTED \<and> hostname c = None \<and> listener c = l
           \<and> sockfd (client c) = accept_answer e
           \<and> 0 \<le> sockfd (client c) \<and> sockfd (client c) \<le> FD_SETSIZE)"
  using assms
  by (auto simp: accept_connection_def new_connection_def heap_free_connection
      TAILQ_INSERT_HEAD_def Let_def close_client_socket_def
      split: option.splits if_splits)

lemma heap_inv_accept_connection:
  assumes "heap_inv I w"
    and "\<And>c. state c = ACCEPTED \<Longrightarrow> hostname c = None \<Longrightarrow> sockfd (client c) \<le> FD_SETSIZE \<Longrightarrow> I c"
  shows "heap_inv I (accept_connection e l w)"
  unfolding heap_inv_def
proof (intro allI impI)
  fix x c
  assume "heap (accept_connection e l w) x = Some c"
  from accept_connection_heap [OF this] show "I c"
    using assms by (auto simp: heap_inv_def)
qed

lemma reachable_fd_ok: "reachable E w \<Longrightarrow> heap_inv fd_ok w"
proof (induction rule: reachable.induct)
  case reachable_init
  show ?case by (rule heap_inv_init)
next
  case (reachable_accept w e l)
  then show ?case by (intro heap_inv_accept_connection) (simp_all add: fd_ok_def)
next
  case (reachable_handle w e rfds wfds)
  then show ?case by (intro heap_inv_handle_connections stable_fd_ok)
next
  case (reachable_free w)
  then show ?case by (simp add: free_connections_def heap_inv_free_connections_loop)
qed

lemma reachable_hostname_state: "reachable E w \<Longrightarrow> heap_inv hostname_state w"
proof (induction rule: reachable.induct)
  case reachable_init
  show ?case by (rule heap_inv_init)
next
  case (reachable_accept w e l)
  then show ?case by (intro heap_inv_accept_connection) (simp_all add: hostname_state_def)
next
  case (reachable_handle w e rfds wfds)
  then show ?case by (intro heap_inv_handle_connections stable_hostname_state)
next
  case (reachable_free w)
  then show ?case by (simp add: free_connections_def heap_inv_free_connections_loop)
qed

lemma reachable_hostname_nonempty: "reachable parser_ok w \<Longrightarrow> heap_inv hostname_nonempty w"
proof (induction rule: reachable.induct)
  case reachable_init
  show ?case by (rule heap_inv_init)
next
  case (reachable_accept w e l)
  then show ?case by (intro heap_inv_accept_connection) (simp_all add: hostname_nonempty_def)
next
  case (reachable_handle w e rfds wfds)
  then show ?case by (intro heap_inv_handle_connections stable_hostname_nonempty)
next
  case (reachable_free w)
  then show ?case by (simp add: free_connections_def heap_inv_free_connections_loop)
qed

lemma accept_connection_fd_too_large:
  assumes "calloc_answer e = Some a" and "heap w a = None"
    and "new_buffer_answer e 0 \<noteq> None" and "new_buffer_answer e 1 \<noteq> None"
    and "FD_SETSIZE < accept_answer e"
  shows "accept_connection e l w = w\<lparr>trace := trace w @ [Close (accept_answer e)]\<rparr>"
proof -
  obtain n0 n1 where n: "new_buffer_answer e 0 = Some n0" "new_buffer_answer e (Suc 0) = Some n1"
    using assms(3,4) by auto
  define c0 where "c0 = \<lparr>state = NEW, client = \<lparr>sockfd = 0, buffer = \<lparr>capacity = n0, content = []\<rparr>\<rparr>,
      server = \<lparr>sockfd = 0, buffer = \<lparr>capacity = n1, content = []\<rparr>\<rparr>, hostname = None, listener = 0\<rparr>"
  define c1 where "c1 = c0\<lparr>client := (client c0)\<lparr>sockfd := accept_answer e\<rparr>\<rparr>"
  have nc: "new_connection e w = (Some a, store a c0 w)"
    using assms(1) n by (simp add: new_connection_def new_buffer_def c0_def)
  have fd: "\<not> accept_answer e < 0"
    using assms(5) FD_SETSIZE_nonneg by simp
  define w1 where "w1 = store a c1 (store a c0 w)"
  have h1: "heap w1 a = Some c1" by (simp add: w1_def)
  have st: "state c1 = NEW" by (simp add: c1_def c0_def)
  define w2 where "w2 = close_client_socket a w1"
  have w2: "w2 = store a (c1\<lparr>state := CLOSED\<rparr>) (sys_close (accept_answer e) w1)"
    using st by (simp add: w2_def close_client_socket_Some [OF h1] c1_def)
  have h2: "heap w2 a = Some (c1\<lparr>state := CLOSED\<rparr>)" by (simp add: w2)
  have "accept_connection e l w = free_connection a w2"
    using assms(5) fd
    by (simp add: accept_connection_def nc Let_def w2_def w1_def c1_def)
  also have "\<dots> = (free_string (hostname (c1\<lparr>state := CLOSED\<rparr>)) w2)\<lparr>heap := (heap w2)(a := None)\<rparr>"
    by (rule free_connection_CLOSED [OF h2]) simp
  also have "\<dots> = w\<lparr>trace := trace w @ [Close (accept_answer e)]\<rparr>"
    using assms(2)
    by (simp add: w2 w1_def c1_def c0_def free_string_def store_def sys_close_def fun_upd_idem)
  finally show ?thesis .
qed

lemma wf_world_accept_connection:
  assumes "wf_world w" and "calloc_fresh e w"
  shows "wf_world (accept_connection e l w)"
proof (cases "calloc_answer e")
  case None
  then show ?thesis using assms(1) by (simp add: accept_connection_def new_connection_def)
next
  case (Some a)
  then have fresh: "heap w a = None" using assms(2) by (simp add: calloc_fresh_def)
  then have nin: "a \<notin> set (connections w)" using assms(1) by (auto simp: wf_world_def)
  show ?thesis
    using assms(1) Some nin
    by (auto simp: wf_world_def accept_connection_def new_connection_def heap_free_connection
        TAILQ_INSERT_HEAD_def Let_def close_client_socket_def split: option.splits)
qed

lemma wf_world_handle_connections:
  assumes "wf_world w"
  shows "wf_world (handle_connections e rfds wfds w)"
proof -
  have a: "distinct (connections w)" and b: "\<forall>p \<in> set (connections w). heap w p \<noteq> None"
    using assms by (simp_all add: wf_world_def)
  from foreach_queue [OF a a subset_refl b, of e rfds wfds]
  show ?thesis by (auto simp: handle_connections_def wf_world_def)
qed

lemma wf_world_free_connections_loop:
  "wf_world w \<Longrightarrow> wf_world (free_connections_loop ps w)"
proof (induction ps arbitrary: w)
  case Nil
  then show ?case by simp
next
  case (Cons p ps)
  have "wf_world (free_connection p (TAILQ_REMOVE p w))"
    using Cons.prems by (auto simp: wf_world_def heap_free_connection TAILQ_REMOVE_def)
  then show ?case by (simp add: Cons.IH)
qed

lemma reachable_wf_world: "reachable E w \<Longrightarrow> wf_world w"
proof (induction rule: reachable.induct)
  case reachable_init
  show ?case by (simp add: wf_world_def init_connections_def)
next
  case (reachable_accept w e l)
  then show ?case by (simp add: wf_world_accept_connection)
next
  case (reachable_handle w e rfds wfds)
  then show ?case by (simp add: wf_world_handle_connections)
next
  case (reachable_free w)
  then show ?case by (simp add: free_connections_def wf_world_free_connections_loop)
qed

section \<open>Evaluation of the concrete inputs\<close>

lemmas ex_defs = ex_env_def ex_con_def ex_world_def ex_parse_def
lemmas step_defs = handle_connections_def handle_connection_def client_side_def server_side_def
  client_rx_step_def client_tx_step_def server_rx_step_def server_tx_step_def
  server_closed_case_def client_closed_case_def FD_ISSET_def
  handle_connection_client_rx_def handle_connection_client_tx_def
  handle_connection_server_rx_def handle_connection_server_tx_def
  handle_connection_client_hello_def
  close_connection_def close_client_socket_def close_server_socket_def free_connection_def
  buffer_recv_def buffer_send_def buffer_peek_def buffer_room_def buffer_len_def
  move_to_head_of_queue_def TAILQ_REMOVE_def TAILQ_INSERT_HEAD_def store_def sys_close_def
  free_string_def IS_TEMPORARY_SOCKERR_def EAGAIN_def EWOULDBLOCK_def EINTR_def FD_SETSIZE_def
  Let_def

lemma parser_ok_ex_env: "parser_ok ex_env" "parser_ok ex_env_eof"
  by (auto simp: parser_ok_def ex_env_def ex_env_eof_def ex_parse_def)

lemma ex_w1_eval:
  "ex_w1 = ex_world ((ex_con ACCEPTED [] [])\<lparr>server := \<lparr>sockfd = 0, buffer = \<lparr>capacity = 8, content = []\<rparr>\<rparr>\<rparr>)"
  by (simp add: ex_w1_def accept_connection_def new_connection_def new_buffer_def
      init_connections_def ex_defs step_defs)

lemma ex_w2_eval: "ex_w2 = ex_world ((ex_con CONNECTED ''svc'' [])\<lparr>hostname := Some ''svc''\<rparr>)"
  unfolding ex_w2_def ex_w1_eval by (simp add: ex_defs step_defs)

lemma ex_w3_eval:
  "ex_w3 = (ex_world ((ex_con CLOSED ''svc'' [])\<lparr>hostname := Some ''svc''\<rparr>))\<lparr>trace := [Close 6, Close 5]\<rparr>"
  unfolding ex_w3_def ex_w2_eval by (simp add: ex_env_eof_def ex_defs step_defs)

lemma ex_w_full_eval:
  "ex_w_full = ex_world ((ex_con ACCEPTED ''12345678'' [])\<lparr>server := \<lparr>sockfd = 0, buffer = \<lparr>capacity = 8, content = []\<rparr>\<rparr>\<rparr>)"
  unfolding ex_w_full_def ex_w1_eval by (simp add: ex_env_incomplete_def ex_defs step_defs)

lemma ex_w_empty_name_eval:
  "ex_w_empty_name = ex_world ((ex_con CONNECTED ''svc'' [])\<lparr>hostname := Some []\<rparr>)"
  unfolding ex_w_empty_name_def ex_w1_eval by (simp add: ex_env_empty_name_def ex_defs step_defs)

lemma ex_w_1024_eval:
  "ex_w_1024 = ex_world ((ex_con ACCEPTED [] [])\<lparr>client := \<lparr>sockfd = 1024, buffer = \<lparr>capacity = 8, content = []\<rparr>\<rparr>,
      server := \<lparr>sockfd = 0, buffer = \<lparr>capacity = 8, content = []\<rparr>\<rparr>\<rparr>)"
  by (simp add: ex_w_1024_def accept_connection_def new_connection_def new_buffer_def
      init_connections_def ex_defs step_defs)

lemma reachable_ex: "reachable parser_ok ex_w1" "reachable parser_ok ex_w2" "reachable parser_ok ex_w3"
proof -
  have f: "calloc_fresh ex_env init_connections"
    by (simp add: calloc_fresh_def ex_env_def init_connections_def)
  show 1: "reachable parser_ok ex_w1"
    unfolding ex_w1_def
    by (rule reachable_accept [where E = parser_ok, OF reachable_init parser_ok_ex_env(1) f])
  show 2: "reachable parser_ok ex_w2"
    unfolding ex_w2_def by (rule reachable_handle [OF 1 parser_ok_ex_env(1)])
  show "reachable parser_ok ex_w3"
    unfolding ex_w3_def by (rule reachable_handle [OF 2 parser_ok_ex_env(2)])
qed

lemma reachable_ex_any: "reachable (\<lambda>e. True) ex_w1" "reachable (\<lambda>e. True) ex_w_empty_name"
proof -
  have f: "calloc_fresh ex_env init_connections"
    by (simp add: calloc_fresh_def ex_env_def init_connections_def)
  show 1: "reachable (\<lambda>e. True) ex_w1"
    unfolding ex_w1_def
    by (rule reachable_accept [where E = "\<lambda>e. True", OF reachable_init TrueI f])
  show "reachable (\<lambda>e. True) ex_w_empty_name"
    unfolding ex_w_empty_name_def by (rule reachable_handle [OF 1 TrueI])
qed

lemma reachable_ex_w_full: "reachable (\<lambda>e. True) ex_w_full"
  unfolding ex_w_full_def by (rule reachable_handle [OF reachable_ex_any(1) TrueI])

lemma reachable_ex_w_1024: "reachable (\<lambda>e. True) ex_w_1024"
proof -
  have f: "calloc_fresh (ex_env\<lparr>accept_answer := 1024\<rparr>) init_connections"
    by (simp add: calloc_fresh_def ex_env_def init_connections_def)
  show ?thesis
    unfolding ex_w_1024_def
    by (rule reachable_accept [where E = "\<lambda>e. True", OF reachable_init TrueI f])
qed

section \<open>The readiness sets\<close>

text \<open>
  With every descriptor to be set in range, each step of \<^verbatim>\<open>fd_set_connections\<close> has a
  result: the sets grow by the descriptors of the table and the running maximum becomes
  the maximum with the record's open descriptors. With one descriptor to be set out of
  range there is no result.
\<close>

lemma MAX_macro_max: "MAX_macro X Y = max X Y"
  by (simp add: MAX_macro_def max_def)

lemma FD_SET_if_Some:
  "(cond \<Longrightarrow> 0 \<le> fd \<and> fd < FD_SETSIZE) \<Longrightarrow>
   FD_SET_if cond fd fds = Some (if cond then insert fd fds else fds)"
  by (simp add: FD_SET_if_def FD_SET_def)

lemma FD_SET_Some: "0 \<le> fd \<and> fd < FD_SETSIZE \<Longrightarrow> FD_SET fd fds = Some (insert fd fds)"
  by (simp add: FD_SET_def)

lemma fd_set_client_side_result:
  assumes "buffer_room (buffer (client c)) \<noteq> 0 \<Longrightarrow> 0 \<le> sockfd (client c) \<and> sockfd (client c) < FD_SETSIZE"
    and "buffer_len (buffer (server c)) \<noteq> 0 \<Longrightarrow> 0 \<le> sockfd (client c) \<and> sockfd (client c) < FD_SETSIZE"
  shows "fd_set_client_side c (rfds, wfds, mx) =
     Some (rfds \<union> (if buffer_room (buffer (client c)) \<noteq> 0 then {sockfd (client c)} else {}),
           wfds \<union> (if buffer_len (buffer (server c)) \<noteq> 0 then {sockfd (client c)} else {}),
           max mx (sockfd (client c)))"
  by (simp add: fd_set_client_side_def FD_SET_if_Some [OF assms(1)] FD_SET_if_Some [OF assms(2)]
      MAX_macro_max)

lemma fd_set_server_side_result:
  assumes "buffer_room (buffer (server c)) \<noteq> 0 \<Longrightarrow> 0 \<le> sockfd (server c) \<and> sockfd (server c) < FD_SETSIZE"
    and "buffer_len (buffer (client c)) \<noteq> 0 \<Longrightarrow> 0 \<le> sockfd (server c) \<and> sockfd (server c) < FD_SETSIZE"
  shows "fd_set_server_side c (rfds, wfds, mx) =
     Some (rfds \<union> (if buffer_room (buffer (server c)) \<noteq> 0 then {sockfd (server c)} else {}),
           wfds \<union> (if buffer_len (buffer (client c)) \<noteq> 0 then {sockfd (server c)} else {}),
           max mx (sockfd (server c)))"
  by (simp add: fd_set_server_side_def FD_SET_if_Some [OF assms(1)] FD_SET_if_Some [OF assms(2)]
      MAX_macro_max)

lemma fd_set_connection_result:
  assumes "\<forall>fd \<in> read_fds c \<union> write_fds c. 0 \<le> fd \<and> fd < FD_SETSIZE"
  shows "fd_set_connection c (rfds, wfds, mx) =
     Some (rfds \<union> read_fds c, wfds \<union> write_fds c, Max (insert mx (open_fds c)))"
proof (cases "state c")
  case NEW
  then show ?thesis
    by (simp add: fd_set_connection_def read_fds_def write_fds_def open_fds_def)
next
  case CLOSED
  then show ?thesis
    by (simp add: fd_set_connection_def read_fds_def write_fds_def open_fds_def)
next
  case SERVER_CLOSED
  then have "0 \<le> sockfd (client c) \<and> sockfd (client c) < FD_SETSIZE"
    using assms by (simp add: write_fds_def)
  then show ?thesis
    using SERVER_CLOSED
    by (simp add: fd_set_connection_def read_fds_def write_fds_def open_fds_def FD_SET_Some
        MAX_macro_max)
next
  case CLIENT_CLOSED
  then have "0 \<le> sockfd (server c) \<and> sockfd (server c) < FD_SETSIZE"
    using assms by (simp add: write_fds_def)
  then show ?thesis
    using CLIENT_CLOSED
    by (simp add: fd_set_connection_def read_fds_def write_fds_def open_fds_def FD_SET_Some
        MAX_macro_max)
next
  case ACCEPTED
  have a: "buffer_room (buffer (client c)) \<noteq> 0 \<Longrightarrow> 0 \<le> sockfd (client c) \<and> sockfd (client c) < FD_SETSIZE"
    using assms ACCEPTED by (simp add: read_fds_def)
  have b: "buffer_len (buffer (server c)) \<noteq> 0 \<Longrightarrow> 0 \<le> sockfd (client c) \<and> sockfd (client c) < FD_SETSIZE"
    using assms ACCEPTED by (simp add: write_fds_def)
  show ?thesis
    using ACCEPTED
    by (simp add: fd_set_connection_def fd_set_client_side_result [OF a b]
        read_fds_def write_fds_def open_fds_def)
next
  case CONNECTED
  have a: "buffer_room (buffer (client c)) \<noteq> 0 \<Longrightarrow> 0 \<le> sockfd (client c) \<and> sockfd (client c) < FD_SETSIZE"
    using assms CONNECTED by (simp add: read_fds_def)
  have b: "buffer_len (buffer (server c)) \<noteq> 0 \<Longrightarrow> 0 \<le> sockfd (client c) \<and> sockfd (client c) < FD_SETSIZE"
    using assms CONNECTED by (simp add: write_fds_def)
  have a': "buffer_room (buffer (server c)) \<noteq> 0 \<Longrightarrow> 0 \<le> sockfd (server c) \<and> sockfd (server c) < FD_SETSIZE"
    using assms CONNECTED by (simp add: read_fds_def)
  have b': "buffer_len (buffer (client c)) \<noteq> 0 \<Longrightarrow> 0 \<le> sockfd (server c) \<and> sockfd (server c) < FD_SETSIZE"
    using assms CONNECTED by (simp add: write_fds_def)
  have m: "Max (insert mx (open_fds c)) = max (max mx (sockfd (server c))) (sockfd (client c))"
    using CONNECTED by (simp add: open_fds_def max.assoc)
  show ?thesis
    unfolding m using CONNECTED
    by (simp add: fd_set_connection_def fd_set_server_side_result [OF a' b']
        fd_set_client_side_result [OF a b] read_fds_def write_fds_def Un_assoc)
qed

lemma finite_open_fds [simp]: "finite (open_fds c)"
  by (simp add: open_fds_def)

lemma Max_insert_Max:
  assumes "finite A" and "finite B"
  shows "Max (insert (Max (insert (m::int) A)) B) = Max (insert m (A \<union> B))"
proof (cases "B = {}")
  case True
  then show ?thesis by simp
next
  case False
  have "Max (insert m (A \<union> B)) = Max (insert m A \<union> B)" by simp
  also have "\<dots> = max (Max (insert m A)) (Max B)"
    using assms False by (intro Max_Un) simp_all
  also have "\<dots> = Max (insert (Max (insert m A)) B)"
    using assms False by simp
  finally show ?thesis by simp
qed

lemma fd_set_loop_result:
  assumes "\<forall>c \<in> set (records_at h ps). \<forall>fd \<in> read_fds c \<union> write_fds c. 0 \<le> fd \<and> fd < FD_SETSIZE"
  shows "fd_set_loop h ps (rfds, wfds, mx) =
     Some (rfds \<union> (\<Union>c \<in> set (records_at h ps). read_fds c),
           wfds \<union> (\<Union>c \<in> set (records_at h ps). write_fds c),
           Max (insert mx (\<Union>c \<in> set (records_at h ps). open_fds c)))"
  using assms
proof (induction ps arbitrary: rfds wfds mx)
  case Nil
  then show ?case by simp
next
  case (Cons p ps)
  show ?case
  proof (cases "h p")
    case None
    with Cons.prems have "\<forall>c \<in> set (records_at h ps).
        \<forall>fd \<in> read_fds c \<union> write_fds c. 0 \<le> fd \<and> fd < FD_SETSIZE"
      by simp
    from Cons.IH [OF this] None show ?thesis by simp
  next
    case (Some c)
    with Cons.prems have c: "\<forall>fd \<in> read_fds c \<union> write_fds c. 0 \<le> fd \<and> fd < FD_SETSIZE"
      and r: "\<forall>c \<in> set (records_at h ps).
        \<forall>fd \<in> read_fds c \<union> write_fds c. 0 \<le> fd \<and> fd < FD_SETSIZE"
      by simp_all
    have f: "finite (\<Union>c \<in> set (records_at h ps). open_fds c)" by simp
    have m: "Max (insert (Max (insert mx (open_fds c))) (\<Union>c \<in> set (records_at h ps). open_fds c))
           = Max (insert mx (open_fds c \<union> (\<Union>c \<in> set (records_at h ps). open_fds c)))"
      by (rule Max_insert_Max [OF finite_open_fds f])
    show ?thesis
      using Some
      by (simp add: fd_set_connection_result [OF c] Cons.IH [OF r] m Un_assoc)
  qed
qed

lemma FD_SET_if_None:
  "FD_SET_if cond fd fds = None \<longleftrightarrow> cond \<and> \<not> (0 \<le> fd \<and> fd < FD_SETSIZE)"
  by (simp add: FD_SET_if_def FD_SET_def)

lemma case_option_None2:
  "(case a of None \<Rightarrow> None | Some r \<Rightarrow> (case b of None \<Rightarrow> None | Some w \<Rightarrow> Some (f r w))) = None
     \<longleftrightarrow> a = None \<or> b = None"
  by (cases a; cases b; simp)

lemma fd_set_client_side_None:
  "fd_set_client_side c (rfds, wfds, mx) = None \<longleftrightarrow>
     (buffer_room (buffer (client c)) \<noteq> 0 \<or> buffer_len (buffer (server c)) \<noteq> 0)
     \<and> \<not> (0 \<le> sockfd (client c) \<and> sockfd (client c) < FD_SETSIZE)"
  by (auto simp: fd_set_client_side_def case_option_None2 FD_SET_if_None)

lemma fd_set_server_side_None:
  "fd_set_server_side c (rfds, wfds, mx) = None \<longleftrightarrow>
     (buffer_room (buffer (server c)) \<noteq> 0 \<or> buffer_len (buffer (client c)) \<noteq> 0)
     \<and> \<not> (0 \<le> sockfd (server c) \<and> sockfd (server c) < FD_SETSIZE)"
  by (auto simp: fd_set_server_side_def case_option_None2 FD_SET_if_None)

lemma fd_set_connection_None:
  assumes "fd \<in> read_fds c \<union> write_fds c" and "\<not> (0 \<le> fd \<and> fd < FD_SETSIZE)"
  shows "fd_set_connection c acc = None"
proof -
  obtain rfds wfds mx where acc: "acc = (rfds, wfds, mx)" by (cases acc) auto
  show ?thesis
  proof (cases "state c")
    case NEW
    then show ?thesis using assms(1) by (simp add: read_fds_def write_fds_def)
  next
    case CLOSED
    then show ?thesis using assms(1) by (simp add: read_fds_def write_fds_def)
  next
    case SERVER_CLOSED
    then have "fd = sockfd (client c)" using assms(1) by (simp add: read_fds_def write_fds_def)
    then show ?thesis using SERVER_CLOSED assms(2) by (simp add: acc fd_set_connection_def FD_SET_def)
  next
    case CLIENT_CLOSED
    then have "fd = sockfd (server c)" using assms(1) by (simp add: read_fds_def write_fds_def)
    then show ?thesis using CLIENT_CLOSED assms(2) by (simp add: acc fd_set_connection_def FD_SET_def)
  next
    case ACCEPTED
    then have "fd = sockfd (client c)
        \<and> (buffer_room (buffer (client c)) \<noteq> 0 \<or> buffer_len (buffer (server c)) \<noteq> 0)"
      using assms(1) by (auto simp: read_fds_def write_fds_def split: if_splits)
    then have "fd_set_client_side c (rfds, wfds, mx) = None"
      using assms(2) by (simp add: fd_set_client_side_None)
    then show ?thesis using ACCEPTED by (simp add: acc fd_set_connection_def)
  next
    case CONNECTED
    then have d: "(fd = sockfd (server c)
        \<and> (buffer_room (buffer (server c)) \<noteq> 0 \<or> buffer_len (buffer (client c)) \<noteq> 0))
      \<or> (fd = sockfd (client c)
        \<and> (buffer_room (buffer (client c)) \<noteq> 0 \<or> buffer_len (buffer (server c)) \<noteq> 0))"
      using assms(1) by (auto simp: read_fds_def write_fds_def split: if_splits)
    show ?thesis
    proof (cases "fd_set_server_side c (rfds, wfds, mx)")
      case None
      then show ?thesis using CONNECTED by (simp add: acc fd_set_connection_def)
    next
      case (Some acc')
      obtain r' w' m' where acc': "acc' = (r', w', m')" by (cases acc') auto
      have "\<not> ((buffer_room (buffer (server c)) \<noteq> 0 \<or> buffer_len (buffer (client c)) \<noteq> 0)
        \<and> \<not> (0 \<le> sockfd (server c) \<and> sockfd (server c) < FD_SETSIZE))"
        using Some fd_set_server_side_None [of c rfds wfds mx] by simp
      with d assms(2) have "fd = sockfd (client c)
        \<and> (buffer_room (buffer (client c)) \<noteq> 0 \<or> buffer_len (buffer (server c)) \<noteq> 0)"
        by blast
      then have "fd_set_client_side c (r', w', m') = None"
        using assms(2) by (simp add: fd_set_client_side_None)
      then show ?thesis using CONNECTED Some by (simp add: acc acc' fd_set_connection_def)
    qed
  qed
qed

lemma fd_set_loop_None:
  assumes "c \<in> set (records_at h ps)" and "fd \<in> read_fds c \<union> write_fds c"
    and "\<not> (0 \<le> fd \<and> fd < FD_SETSIZE)"
  shows "fd_set_loop h ps acc = None"
  using assms(1)
proof (induction ps arbitrary: acc)
  case Nil
  then show ?case by simp
next
  case (Cons p ps)
  show ?case
  proof (cases "h p")
    case None
    then show ?thesis using Cons by simp
  next
    case (Some d)
    show ?thesis
    proof (cases "d = c")
      case True
      then show ?thesis
        using Some fd_set_connection_None [OF assms(2,3)] by simp
    next
      case False
      then have "c \<in> set (records_at h ps)" using Cons.prems Some by simp
      then show ?thesis using Some by (simp add: Cons.IH split: option.splits)
    qed
  qed
qed

lemma fd_set_connections_None:
  assumes "c \<in> set (live_records w)" and "fd \<in> read_fds c \<union> write_fds c"
    and "\<not> (0 \<le> fd \<and> fd < FD_SETSIZE)"
  shows "fd_set_connections w rfds wfds mx = None"
  using assms unfolding fd_set_connections_def live_records_def by (rule fd_set_loop_None)

section \<open>The statements of the specification\<close>

subsection \<open>C1: what one call of the dispatch loop leaves in the queue\<close>

text \<open>
  C1, as amended. In a well-formed world, after one call of \<^verbatim>\<open>handle_connections\<close> the
  queue holds exactly the records that were in it and were not \<^verbatim>\<open>CLOSED\<close> when the call
  started; the records that were \<^verbatim>\<open>CLOSED\<close> at the start, and only those, have been
  unlinked and freed. A record that becomes \<^verbatim>\<open>CLOSED\<close> during the call is therefore still
  in the queue afterwards, and is reaped by the next call.
\<close>

theorem handle_connections_reaps:
  assumes "wf_world w"
  shows "set (connections (handle_connections e rfds wfds w))
           = {p \<in> set (connections w). \<not> is_closed w p}
       \<and> (\<forall>p \<in> set (connections w).
             (heap (handle_connections e rfds wfds w) p = None) = is_closed w p)"
proof -
  have a: "distinct (connections w)" and b: "\<forall>p \<in> set (connections w). heap w p \<noteq> None"
    using assms by (simp_all add: wf_world_def)
  from foreach_queue [OF a a subset_refl b, of e rfds wfds]
  show ?thesis by (auto simp: handle_connections_def)
qed

text \<open>
  C1 as stated fails. A client is accepted and then closes its side: in the call of
  \<^verbatim>\<open>handle_connections\<close> that reads the end of stream the record becomes \<^verbatim>\<open>CLOSED\<close>, and
  it is still in the queue when the call returns.
\<close>

theorem closed_record_stays_listed:
  "reachable parser_ok (handle_connections ex_env_eof {5} {} ex_w1)
   \<and> connections (handle_connections ex_env_eof {5} {} ex_w1) = [16]
   \<and> map_option state (heap (handle_connections ex_env_eof {5} {} ex_w1) 16) = Some CLOSED"
proof -
  have r: "reachable parser_ok (handle_connections ex_env_eof {5} {} ex_w1)"
    by (rule reachable_handle [OF reachable_ex(1) parser_ok_ex_env(2)])
  have "connections (handle_connections ex_env_eof {5} {} ex_w1) = [16]
   \<and> map_option state (heap (handle_connections ex_env_eof {5} {} ex_w1) 16) = Some CLOSED"
    unfolding ex_w1_eval by (simp add: ex_env_eof_def ex_defs step_defs)
  with r show ?thesis by (rule conjI)
qed

text \<open>
  The amended statement on a queue of a \<^verbatim>\<open>CLOSED\<close> record and a \<^verbatim>\<open>SERVER_CLOSED\<close> record
  with nothing left to send: the first is freed, the second stays.
\<close>

theorem handle_connections_reaps_witness:
  "wf_world (ex_world2 (ex_con CLOSED [] []) (ex_con SERVER_CLOSED [] []))
   \<and> set (connections (handle_connections ex_env {} {}
            (ex_world2 (ex_con CLOSED [] []) (ex_con SERVER_CLOSED [] [])))) = {32}
   \<and> heap (handle_connections ex_env {} {}
            (ex_world2 (ex_con CLOSED [] []) (ex_con SERVER_CLOSED [] []))) 16 = None
   \<and> heap (handle_connections ex_env {} {}
            (ex_world2 (ex_con CLOSED [] []) (ex_con SERVER_CLOSED [] []))) 32 \<noteq> None"
proof -
  let ?w = "ex_world2 (ex_con CLOSED [] []) (ex_con SERVER_CLOSED [] [])"
  have wf: "wf_world ?w"
    by (simp add: wf_world_def ex_world2_def)
  have c: "is_closed ?w 16" "\<not> is_closed ?w 32"
    by (simp_all add: is_closed_def ex_world2_def ex_con_def)
  have q: "connections ?w = [16, 32]" by (simp add: ex_world2_def)
  from handle_connections_reaps [OF wf, of ex_env "{}" "{}"] c wf
  show ?thesis by (auto simp: q)
qed

subsection \<open>C2: draining after the server side has closed\<close>

text \<open>
  C2, as amended. The buffer that drains in state \<^verbatim>\<open>SERVER_CLOSED\<close> is the server
  buffer (the bytes received from the server, still to be sent to the client). For a
  \<^verbatim>\<open>SERVER_CLOSED\<close> record of a well-formed world, one call of \<^verbatim>\<open>handle_connections\<close>
  leaves the record allocated, does not increase the length of its server buffer, does not
  change its client buffer, and leaves it \<^verbatim>\<open>SERVER_CLOSED\<close> or \<^verbatim>\<open>CLOSED\<close>; if the server
  buffer is empty when the call returns, the record is \<^verbatim>\<open>CLOSED\<close>.
\<close>

theorem server_closed_drains:
  assumes "wf_world w" and "p \<in> set (connections w)"
    and "heap w p = Some c" and "state c = SERVER_CLOSED"
  shows "\<exists>c'. heap (handle_connections e rfds wfds w) p = Some c'
           \<and> buffer_len (buffer (server c')) \<le> buffer_len (buffer (server c))
           \<and> buffer (client c') = buffer (client c)
           \<and> (state c' = SERVER_CLOSED \<or> state c' = CLOSED)
           \<and> (buffer_len (buffer (server c')) = 0 \<longrightarrow> state c' = CLOSED)"
proof -
  obtain pre post where sp: "connections w = pre @ p # post"
    using assms(2) by (auto dest: split_list)
  have d: "p \<notin> set pre" "p \<notin> set post"
    using assms(1) sp by (auto simp: wf_world_def)
  let ?body = "handle_connection e rfds wfds"
  let ?w1 = "TAILQ_FOREACH_SAFE ?body pre w"
  have 1: "heap ?w1 p = Some c"
    using d(1) assms(3) by (simp add: heap_foreach_other)
  have 2: "handle_connections e rfds wfds w = TAILQ_FOREACH_SAFE ?body post (?body p ?w1)"
    by (simp add: handle_connections_def sp foreach_append)
  have 3: "heap (handle_connections e rfds wfds w) p = heap (?body p ?w1) p"
    using d(2) by (simp add: 2 heap_foreach_other)
  show ?thesis
    unfolding 3 by (rule server_closed_case_result [OF 1 assms(4)])
qed

text \<open>
  C2 as stated fails. A \<^verbatim>\<open>SERVER_CLOSED\<close> record has an empty client buffer and three
  bytes in its server buffer. Dispatched with no descriptor ready it is unchanged;
  dispatched with its client descriptor writable and a peer that takes two bytes it keeps
  the third. Either way its client buffer has length 0 and it is still
  \<^verbatim>\<open>SERVER_CLOSED\<close> when the call returns.
\<close>

theorem server_closed_not_closed_by_empty_client_buffer:
  "buffer_len (buffer (client (ex_con SERVER_CLOSED [] ''abc''))) = 0
   \<and> heap (handle_connections ex_env {} {} (ex_world (ex_con SERVER_CLOSED [] ''abc''))) 16
       = Some (ex_con SERVER_CLOSED [] ''abc'')
   \<and> heap (handle_connections ex_env {} {5} (ex_world (ex_con SERVER_CLOSED [] ''abc''))) 16
       = Some (ex_con SERVER_CLOSED [] ''c'')"
  by (simp add: ex_defs step_defs)

theorem server_closed_drains_witness:
  "wf_world (ex_world (ex_con SERVER_CLOSED [] ''ab''))
   \<and> 16 \<in> set (connections (ex_world (ex_con SERVER_CLOSED [] ''ab'')))
   \<and> heap (ex_world (ex_con SERVER_CLOSED [] ''ab'')) 16 = Some (ex_con SERVER_CLOSED [] ''ab'')
   \<and> state (ex_con SERVER_CLOSED [] ''ab'') = SERVER_CLOSED
   \<and> (\<exists>c'. heap (handle_connections ex_env {} {5} (ex_world (ex_con SERVER_CLOSED [] ''ab''))) 16
              = Some c'
         \<and> buffer_len (buffer (server c')) = 0
         \<and> buffer (client c') = \<lparr>capacity = 8, content = []\<rparr>
         \<and> state c' = CLOSED)"
proof -
  let ?c = "ex_con SERVER_CLOSED [] ''ab''"
  let ?w' = "handle_connections ex_env {} {5} (ex_world ?c)"
  have 1: "wf_world (ex_world ?c)" by (simp add: wf_world_def ex_world_def)
  have 2: "16 \<in> set (connections (ex_world ?c))" by (simp add: ex_world_def)
  have 3: "heap (ex_world ?c) 16 = Some ?c" by (simp add: ex_world_def)
  have 4: "state ?c = SERVER_CLOSED" by (simp add: ex_con_def)
  have 5: "buffer (client ?c) = \<lparr>capacity = 8, content = []\<rparr>"
    by (simp add: ex_con_def)
  have 6: "map_option (\<lambda>c. buffer_len (buffer (server c))) (heap ?w' 16) = Some 0"
    by (simp add: ex_defs step_defs)
  from server_closed_drains [OF 1 2 3 4, of ex_env "{}" "{5}"]
  obtain c' where c0: "heap ?w' 16 = Some c'
           \<and> buffer_len (buffer (server c')) \<le> buffer_len (buffer (server ?c))
           \<and> buffer (client c') = buffer (client ?c)
           \<and> (state c' = SERVER_CLOSED \<or> state c' = CLOSED)
           \<and> (buffer_len (buffer (server c')) = 0 \<longrightarrow> state c' = CLOSED)" ..
  then have c': "heap ?w' 16 = Some c'" "buffer (client c') = buffer (client ?c)"
    "buffer_len (buffer (server c')) = 0 \<longrightarrow> state c' = CLOSED"
    by simp_all
  have 7: "buffer_len (buffer (server c')) = 0" using 6 c'(1) by simp
  with c'(3) have 8: "state c' = CLOSED" by simp
  have "heap ?w' 16 = Some c' \<and> buffer_len (buffer (server c')) = 0
         \<and> buffer (client c') = \<lparr>capacity = 8, content = []\<rparr> \<and> state c' = CLOSED"
    using c'(1) c'(2) 7 8 unfolding 5 by simp
  then have "\<exists>c'. heap ?w' 16 = Some c' \<and> buffer_len (buffer (server c')) = 0
         \<and> buffer (client c') = \<lparr>capacity = 8, content = []\<rparr> \<and> state c' = CLOSED" ..
  with 1 2 3 4 show ?thesis by (intro conjI)
qed

subsection \<open>C3: the handoff does not consume the peeked bytes\<close>

text \<open>
  C3. For an \<^verbatim>\<open>ACCEPTED\<close> record, when the parser returns a hostname (a result that is
  not negative) and the lookup returns a descriptor between 0 and \<^verbatim>\<open>FD_SETSIZE\<close>,
  \<^verbatim>\<open>handle_connection_client_hello\<close> leaves the record \<^verbatim>\<open>CONNECTED\<close> with its client buffer
  as it was: the same bytes, hence the same length.
\<close>

theorem client_hello_keeps_client_buffer:
  assumes "heap w p = Some con" and "state con = ACCEPTED"
    and "parse_packet e (listener con) (buffer_peek (buffer (client con)) 1460) = (r, h)"
    and "0 \<le> r"
    and "lookup_server_socket e p (listener con) h = fd"
    and "0 \<le> fd" and "fd \<le> FD_SETSIZE"
  shows "\<exists>con'. heap (handle_connection_client_hello e p w) p = Some con'
           \<and> state con' = CONNECTED
           \<and> buffer (client con') = buffer (client con)
           \<and> buffer_len (buffer (client con')) = buffer_len (buffer (client con))"
  using assms by (simp add: client_hello_result [OF assms(1) assms(3) assms(5)])

theorem client_hello_keeps_client_buffer_witness:
  "heap (ex_world (ex_con ACCEPTED ''svc'' [])) 16 = Some (ex_con ACCEPTED ''svc'' [])
   \<and> state (ex_con ACCEPTED ''svc'' []) = ACCEPTED
   \<and> parse_packet ex_env 7 ''svc'' = (3, Some ''svc'')
   \<and> lookup_server_socket ex_env 16 7 (Some ''svc'') = 6
   \<and> (\<exists>con'. heap (handle_connection_client_hello ex_env 16 (ex_world (ex_con ACCEPTED ''svc'' []))) 16
                = Some con'
         \<and> state con' = CONNECTED
         \<and> buffer (client con') = \<lparr>capacity = 8, content = ''svc''\<rparr>
         \<and> buffer_len (buffer (client con')) = 3)"
proof -
  let ?c = "ex_con ACCEPTED ''svc'' []"
  have 1: "heap (ex_world ?c) 16 = Some ?c" by (simp add: ex_world_def)
  have 2: "state ?c = ACCEPTED" by (simp add: ex_con_def)
  have 3: "parse_packet ex_env (listener ?c) (buffer_peek (buffer (client ?c)) 1460)
             = (3, Some ''svc'')"
    by (simp add: ex_defs buffer_peek_def)
  have 4: "lookup_server_socket ex_env 16 (listener ?c) (Some ''svc'') = 6"
    by (simp add: ex_defs)
  have 5: "(0::int) \<le> 3" "(0::int) \<le> 6" "6 \<le> FD_SETSIZE"
    by (simp_all add: FD_SETSIZE_def)
  have 6: "buffer (client ?c) = \<lparr>capacity = 8, content = ''svc''\<rparr>"
    "buffer_len \<lparr>capacity = 8, content = ''svc''\<rparr> = 3"
    by (simp_all add: ex_con_def buffer_len_def)
  have 7: "parse_packet ex_env 7 ''svc'' = (3, Some ''svc'')"
    "lookup_server_socket ex_env 16 7 (Some ''svc'') = 6"
    by (simp_all add: ex_defs)
  from client_hello_keeps_client_buffer [OF 1 2 3 5(1) 4 5(2) 5(3)]
  have "\<exists>con'. heap (handle_connection_client_hello ex_env 16 (ex_world ?c)) 16 = Some con'
         \<and> state con' = CONNECTED
         \<and> buffer (client con') = \<lparr>capacity = 8, content = ''svc''\<rparr>
         \<and> buffer_len (buffer (client con')) = 3"
    unfolding 6 .
  with 1 2 7 show ?thesis by blast
qed

subsection \<open>C4: descriptors above the ceiling at accept\<close>

text \<open>
  C4. When \<^verbatim>\<open>accept\<close> returns a descriptor greater than \<^verbatim>\<open>FD_SETSIZE\<close>,
  \<^verbatim>\<open>accept_connection\<close> closes that descriptor once and changes nothing else: the queue is
  as before and the fresh record is freed again. And in every reachable world, whatever
  the environment does, a record in state \<^verbatim>\<open>ACCEPTED\<close> holds a client descriptor that is
  at most \<^verbatim>\<open>FD_SETSIZE\<close>.
\<close>

theorem accept_fd_ceiling:
  "(calloc_answer e = Some a \<and> heap w a = None
      \<and> new_buffer_answer e 0 \<noteq> None \<and> new_buffer_answer e 1 \<noteq> None
      \<and> FD_SETSIZE < accept_answer e
    \<longrightarrow> accept_connection e l w = w\<lparr>trace := trace w @ [Close (accept_answer e)]\<rparr>)
 \<and> (reachable E v \<and> heap v p = Some c \<and> state c = ACCEPTED
    \<longrightarrow> sockfd (client c) \<le> FD_SETSIZE)"
proof (intro conjI impI)
  assume "calloc_answer e = Some a \<and> heap w a = None
      \<and> new_buffer_answer e 0 \<noteq> None \<and> new_buffer_answer e 1 \<noteq> None
      \<and> FD_SETSIZE < accept_answer e"
  then have "calloc_answer e = Some a" and "heap w a = None"
    and "new_buffer_answer e 0 \<noteq> None" and "new_buffer_answer e 1 \<noteq> None"
    and "FD_SETSIZE < accept_answer e"
    by simp_all
  then show "accept_connection e l w = w\<lparr>trace := trace w @ [Close (accept_answer e)]\<rparr>"
    by (rule accept_connection_fd_too_large)
next
  assume a: "reachable E v \<and> heap v p = Some c \<and> state c = ACCEPTED"
  then have "reachable E v" by simp
  then have "heap_inv fd_ok v" by (rule reachable_fd_ok)
  with a show "sockfd (client c) \<le> FD_SETSIZE" by (auto simp: heap_inv_def fd_ok_def)
qed

theorem accept_fd_ceiling_witness:
  "calloc_answer (ex_env\<lparr>accept_answer := 2000\<rparr>) = Some 16
   \<and> heap init_connections 16 = None
   \<and> new_buffer_answer (ex_env\<lparr>accept_answer := 2000\<rparr>) 0 \<noteq> None
   \<and> new_buffer_answer (ex_env\<lparr>accept_answer := 2000\<rparr>) 1 \<noteq> None
   \<and> FD_SETSIZE < accept_answer (ex_env\<lparr>accept_answer := 2000\<rparr>)
   \<and> accept_connection (ex_env\<lparr>accept_answer := 2000\<rparr>) 7 init_connections
       = init_connections\<lparr>trace := [Close 2000]\<rparr>
   \<and> reachable parser_ok ex_w1
   \<and> heap ex_w1 16 = Some ((ex_con ACCEPTED [] [])\<lparr>server := \<lparr>sockfd = 0, buffer = \<lparr>capacity = 8, content = []\<rparr>\<rparr>\<rparr>)
   \<and> state ((ex_con ACCEPTED [] [])\<lparr>server := \<lparr>sockfd = 0, buffer = \<lparr>capacity = 8, content = []\<rparr>\<rparr>\<rparr>) = ACCEPTED
   \<and> sockfd (client ((ex_con ACCEPTED [] [])\<lparr>server := \<lparr>sockfd = 0, buffer = \<lparr>capacity = 8, content = []\<rparr>\<rparr>\<rparr>)) \<le> FD_SETSIZE"
proof -
  let ?e = "ex_env\<lparr>accept_answer := 2000\<rparr>"
  let ?c = "(ex_con ACCEPTED [] [])\<lparr>server := \<lparr>sockfd = 0, buffer = \<lparr>capacity = 8, content = []\<rparr>\<rparr>\<rparr>"
  have a: "calloc_answer ?e = Some 16" "heap init_connections 16 = None"
    "new_buffer_answer ?e 0 \<noteq> None" "new_buffer_answer ?e 1 \<noteq> None"
    "FD_SETSIZE < accept_answer ?e"
    by (simp_all add: ex_env_def init_connections_def FD_SETSIZE_def)
  have b: "heap ex_w1 16 = Some ?c" "state ?c = ACCEPTED"
    by (simp_all add: ex_w1_eval ex_world_def ex_con_def)
  have t: "trace init_connections @ [Close (accept_answer ?e)] = [Close 2000]"
    by (simp add: init_connections_def ex_env_def)
  from accept_fd_ceiling [of ?e 16 init_connections 7 parser_ok ex_w1 16 ?c] a b reachable_ex(1)
  show ?thesis unfolding t by blast
qed

subsection \<open>C5: the two close primitives\<close>

text \<open>
  C5. \<^verbatim>\<open>close_client_socket\<close> takes \<^verbatim>\<open>CONNECTED\<close> to \<^verbatim>\<open>CLIENT_CLOSED\<close> and every other
  state to \<^verbatim>\<open>CLOSED\<close>; \<^verbatim>\<open>close_server_socket\<close> takes \<^verbatim>\<open>CLIENT_CLOSED\<close> to \<^verbatim>\<open>CLOSED\<close>
  and every other state to \<^verbatim>\<open>SERVER_CLOSED\<close>; each performs exactly one \<^verbatim>\<open>close\<close>, on the
  client and on the server descriptor respectively.
\<close>

theorem close_socket_transitions:
  assumes "heap w p = Some c"
  shows "heap (close_client_socket p w) p =
           Some (c\<lparr>state := (if state c = CONNECTED then CLIENT_CLOSED else CLOSED)\<rparr>)
       \<and> trace (close_client_socket p w) = trace w @ [Close (sockfd (client c))]
       \<and> heap (close_server_socket p w) p =
           Some (c\<lparr>state := (if state c = CLIENT_CLOSED then CLOSED else SERVER_CLOSED)\<rparr>)
       \<and> trace (close_server_socket p w) = trace w @ [Close (sockfd (server c))]"
  using assms by (simp add: close_client_socket_Some close_server_socket_Some)

theorem close_socket_transitions_witness:
  "heap (ex_world (ex_con CONNECTED [] [])) 16 = Some (ex_con CONNECTED [] [])
   \<and> heap (close_client_socket 16 (ex_world (ex_con CONNECTED [] []))) 16
       = Some (ex_con CLIENT_CLOSED [] [])
   \<and> trace (close_client_socket 16 (ex_world (ex_con CONNECTED [] []))) = [Close 5]
   \<and> heap (close_server_socket 16 (ex_world (ex_con CONNECTED [] []))) 16
       = Some (ex_con SERVER_CLOSED [] [])
   \<and> trace (close_server_socket 16 (ex_world (ex_con CONNECTED [] []))) = [Close 6]"
proof -
  have h: "heap (ex_world (ex_con CONNECTED [] [])) 16 = Some (ex_con CONNECTED [] [])"
    by (simp add: ex_world_def)
  from close_socket_transitions [OF h] h show ?thesis
    by (simp add: ex_con_def ex_world_def)
qed

subsection \<open>C6: the readiness sets and the value returned\<close>

text \<open>
  C6, as amended. When every descriptor that the table puts into a set lies in the range
  of an \<^verbatim>\<open>fd_set\<close>, from 0 to \<^verbatim>\<open>FD_SETSIZE - 1\<close>, \<^verbatim>\<open>fd_set_connections\<close> adds to the read
  set and to the write set exactly the descriptors of the table, and returns the maximum
  of the value passed in and the open descriptors of all records of the queue: server and
  client descriptor of a \<^verbatim>\<open>CONNECTED\<close> record, client descriptor of an \<^verbatim>\<open>ACCEPTED\<close> or
  \<^verbatim>\<open>SERVER_CLOSED\<close> record, server descriptor of a \<^verbatim>\<open>CLIENT_CLOSED\<close> record, whether or
  not the descriptor was added to a set.
\<close>

theorem fd_set_connections_sets_and_max:
  assumes "\<forall>c \<in> set (live_records w). \<forall>fd \<in> read_fds c \<union> write_fds c. 0 \<le> fd \<and> fd < FD_SETSIZE"
  shows "fd_set_connections w rfds wfds mx =
     Some (rfds \<union> (\<Union>c \<in> set (live_records w). read_fds c),
           wfds \<union> (\<Union>c \<in> set (live_records w). write_fds c),
           Max (insert mx (\<Union>c \<in> set (live_records w). open_fds c)))"
  using assms unfolding fd_set_connections_def live_records_def by (rule fd_set_loop_result)

text \<open>
  C6 as stated fails in two ways. A client is accepted on descriptor 5 and fills its
  buffer with a request that the parser still finds incomplete: the record is
  \<^verbatim>\<open>ACCEPTED\<close> with no room in the client buffer and nothing in the server buffer, neither
  set receives a descriptor, and with the value 3 passed in the function returns 5, not
  3. And a client accepted on descriptor \<^verbatim>\<open>FD_SETSIZE\<close> (1024), which \<^verbatim>\<open>accept_connection\<close>
  lets through, makes \<^verbatim>\<open>FD_SET\<close> write outside the read set: the call has no defined
  result.
\<close>

theorem fd_set_connections_max_of_unwatched_fd:
  "reachable (\<lambda>e. True) ex_w_full
   \<and> fd_set_connections ex_w_full {} {} 3 = Some ({}, {}, 5)
   \<and> reachable (\<lambda>e. True) ex_w_1024
   \<and> fd_set_connections ex_w_1024 {} {} 3 = None"
proof -
  have a: "fd_set_connections ex_w_full {} {} 3 = Some ({}, {}, 5)"
    unfolding ex_w_full_eval
    by (simp add: fd_set_connections_def fd_set_connection_def fd_set_client_side_def
        FD_SET_if_def buffer_room_def buffer_len_def MAX_macro_def ex_world_def ex_con_def)
  have b: "fd_set_connections ex_w_1024 {} {} 3 = None"
    unfolding ex_w_1024_eval
    by (simp add: fd_set_connections_def fd_set_connection_def fd_set_client_side_def
        FD_SET_if_def FD_SET_def FD_SETSIZE_def buffer_room_def buffer_len_def ex_world_def
        ex_con_def)
  from reachable_ex_w_full a reachable_ex_w_1024 b show ?thesis by (intro conjI)
qed

text \<open>
  The amended statement on a \<^verbatim>\<open>CONNECTED\<close> record with a request waiting in its client
  buffer, and on the record of the first failure above.
\<close>

theorem fd_set_connections_sets_and_max_witness:
  "live_records ex_w2 = [(ex_con CONNECTED ''svc'' [])\<lparr>hostname := Some ''svc''\<rparr>]
   \<and> read_fds ((ex_con CONNECTED ''svc'' [])\<lparr>hostname := Some ''svc''\<rparr>) = {5, 6}
   \<and> write_fds ((ex_con CONNECTED ''svc'' [])\<lparr>hostname := Some ''svc''\<rparr>) = {6}
   \<and> open_fds ((ex_con CONNECTED ''svc'' [])\<lparr>hostname := Some ''svc''\<rparr>) = {5, 6}
   \<and> (6::int) < FD_SETSIZE
   \<and> fd_set_connections ex_w2 {} {} 3 = Some ({5, 6}, {6}, 6)
   \<and> live_records ex_w_full
       = [(ex_con ACCEPTED ''12345678'' [])\<lparr>server := \<lparr>sockfd = 0, buffer = \<lparr>capacity = 8, content = []\<rparr>\<rparr>\<rparr>]
   \<and> read_fds ((ex_con ACCEPTED ''12345678'' [])\<lparr>server := \<lparr>sockfd = 0, buffer = \<lparr>capacity = 8, content = []\<rparr>\<rparr>\<rparr>) = {}
   \<and> write_fds ((ex_con ACCEPTED ''12345678'' [])\<lparr>server := \<lparr>sockfd = 0, buffer = \<lparr>capacity = 8, content = []\<rparr>\<rparr>\<rparr>) = {}
   \<and> open_fds ((ex_con ACCEPTED ''12345678'' [])\<lparr>server := \<lparr>sockfd = 0, buffer = \<lparr>capacity = 8, content = []\<rparr>\<rparr>\<rparr>) = {5}
   \<and> fd_set_connections ex_w_full {} {} 3 = Some ({}, {}, 5)"
proof -
  let ?c = "(ex_con CONNECTED ''svc'' [])\<lparr>hostname := Some ''svc''\<rparr>"
  let ?d = "(ex_con ACCEPTED ''12345678'' [])\<lparr>server := \<lparr>sockfd = 0, buffer = \<lparr>capacity = 8, content = []\<rparr>\<rparr>\<rparr>"
  have lc: "live_records ex_w2 = [?c]"
    by (simp add: live_records_def ex_w2_eval ex_world_def)
  have ld: "live_records ex_w_full = [?d]"
    by (simp add: live_records_def ex_w_full_eval ex_world_def)
  have rc: "read_fds ?c = {5, 6}" and wc: "write_fds ?c = {6}" and oc: "open_fds ?c = {5, 6}"
    by (auto simp: read_fds_def write_fds_def open_fds_def ex_con_def buffer_room_def
        buffer_len_def)
  have rd: "read_fds ?d = {}" and wd: "write_fds ?d = {}" and od: "open_fds ?d = {5}"
    by (simp_all add: read_fds_def write_fds_def open_fds_def ex_con_def buffer_room_def
        buffer_len_def)
  have s: "(6::int) < FD_SETSIZE" by (simp add: FD_SETSIZE_def)
  have hc: "\<forall>c \<in> set (live_records ex_w2). \<forall>fd \<in> read_fds c \<union> write_fds c. 0 \<le> fd \<and> fd < FD_SETSIZE"
    using s by (simp add: lc rc wc)
  have hd: "\<forall>c \<in> set (live_records ex_w_full). \<forall>fd \<in> read_fds c \<union> write_fds c. 0 \<le> fd \<and> fd < FD_SETSIZE"
    by (simp add: ld rd wd)
  have 1: "fd_set_connections ex_w2 {} {} 3 = Some ({5, 6}, {6}, 6)"
    using fd_set_connections_sets_and_max [OF hc, of "{}" "{}" 3] by (simp add: lc rc wc oc)
  have 2: "fd_set_connections ex_w_full {} {} 3 = Some ({}, {}, 5)"
    using fd_set_connections_sets_and_max [OF hd, of "{}" "{}" 3] by (simp add: ld rd wd od)
  from lc rc wc oc s 1 ld rd wd od 2 show ?thesis by (intro conjI)
qed

subsection \<open>C7: failure of the receive and send steps\<close>

text \<open>
  C7. Each of the four handlers returns 1 exactly when its buffer operation failed in the
  sense of \<open>rx_fatal\<close> (receive) or \<open>tx_fatal\<close> (send), and otherwise returns 0 and has
  moved the connection to the head of the queue.
\<close>

theorem rx_tx_results:
  assumes "heap w p = Some con"
  shows "(case handle_connection_client_rx e p w of (r, w') \<Rightarrow>
            (r = 1 \<longleftrightarrow> rx_fatal (buffer_recv (buffer (client con)) (client_recv e p))) \<and>
            (r \<noteq> 1 \<longrightarrow> r = 0 \<and> connections w' = p # remove1 p (connections w)))
       \<and> (case handle_connection_server_rx e p w of (r, w') \<Rightarrow>
            (r = 1 \<longleftrightarrow> rx_fatal (buffer_recv (buffer (server con)) (server_recv e p))) \<and>
            (r \<noteq> 1 \<longrightarrow> r = 0 \<and> connections w' = p # remove1 p (connections w)))
       \<and> (case handle_connection_client_tx e p w of (r, w') \<Rightarrow>
            (r = 1 \<longleftrightarrow> tx_fatal (buffer_send (buffer (server con)) (client_send e p))) \<and>
            (r \<noteq> 1 \<longrightarrow> r = 0 \<and> connections w' = p # remove1 p (connections w)))
       \<and> (case handle_connection_server_tx e p w of (r, w') \<Rightarrow>
            (r = 1 \<longleftrightarrow> tx_fatal (buffer_send (buffer (client con)) (server_send e p))) \<and>
            (r \<noteq> 1 \<longrightarrow> r = 0 \<and> connections w' = p # remove1 p (connections w)))"
proof -
  obtain n1 e1 b1 where r1: "buffer_recv (buffer (client con)) (client_recv e p) = (n1, e1, b1)"
    by (cases "buffer_recv (buffer (client con)) (client_recv e p)") auto
  obtain n2 e2 b2 where r2: "buffer_recv (buffer (server con)) (server_recv e p) = (n2, e2, b2)"
    by (cases "buffer_recv (buffer (server con)) (server_recv e p)") auto
  obtain n3 e3 b3 where r3: "buffer_send (buffer (server con)) (client_send e p) = (n3, e3, b3)"
    by (cases "buffer_send (buffer (server con)) (client_send e p)") auto
  obtain n4 e4 b4 where r4: "buffer_send (buffer (client con)) (server_send e p) = (n4, e4, b4)"
    by (cases "buffer_send (buffer (client con)) (server_send e p)") auto
  have c1: "case handle_connection_client_rx e p w of (r, w') \<Rightarrow>
            (r = 1 \<longleftrightarrow> rx_fatal (buffer_recv (buffer (client con)) (client_recv e p))) \<and>
            (r \<noteq> 1 \<longrightarrow> r = 0 \<and> connections w' = p # remove1 p (connections w))"
    by (simp add: client_rx_result [OF assms r1] r1 rx_fatal_def IS_TEMPORARY_SOCKERR_def)
  have c2: "case handle_connection_server_rx e p w of (r, w') \<Rightarrow>
            (r = 1 \<longleftrightarrow> rx_fatal (buffer_recv (buffer (server con)) (server_recv e p))) \<and>
            (r \<noteq> 1 \<longrightarrow> r = 0 \<and> connections w' = p # remove1 p (connections w))"
    by (simp add: server_rx_result [OF assms r2] r2 rx_fatal_def IS_TEMPORARY_SOCKERR_def)
  have c3: "case handle_connection_client_tx e p w of (r, w') \<Rightarrow>
            (r = 1 \<longleftrightarrow> tx_fatal (buffer_send (buffer (server con)) (client_send e p))) \<and>
            (r \<noteq> 1 \<longrightarrow> r = 0 \<and> connections w' = p # remove1 p (connections w))"
    by (simp add: client_tx_result [OF assms r3] r3 tx_fatal_def IS_TEMPORARY_SOCKERR_def)
  have c4: "case handle_connection_server_tx e p w of (r, w') \<Rightarrow>
            (r = 1 \<longleftrightarrow> tx_fatal (buffer_send (buffer (client con)) (server_send e p))) \<and>
            (r \<noteq> 1 \<longrightarrow> r = 0 \<and> connections w' = p # remove1 p (connections w))"
    by (simp add: server_tx_result [OF assms r4] r4 tx_fatal_def IS_TEMPORARY_SOCKERR_def)
  from c1 c2 c3 c4 show ?thesis by blast
qed

theorem rx_tx_results_witness:
  "heap (ex_world (ex_con CONNECTED [] ''abc'')) 16 = Some (ex_con CONNECTED [] ''abc'')
   \<and> fst (handle_connection_client_rx ex_env 16 (ex_world (ex_con CONNECTED [] ''abc''))) = 0
   \<and> connections (snd (handle_connection_client_rx ex_env 16 (ex_world (ex_con CONNECTED [] ''abc''))))
       = [16]
   \<and> fst (handle_connection_server_rx ex_env 16 (ex_world (ex_con CONNECTED [] ''abc''))) = 1
   \<and> fst (handle_connection_client_tx ex_env 16 (ex_world (ex_con CONNECTED [] ''abc''))) = 0
   \<and> fst (handle_connection_server_tx ex_env 16 (ex_world (ex_con CONNECTED [] ''abc''))) = 1"
proof -
  let ?c = "ex_con CONNECTED [] ''abc''"
  have h: "heap (ex_world ?c) 16 = Some ?c" by (simp add: ex_world_def)
  have f: "\<not> rx_fatal (buffer_recv (buffer (client ?c)) (client_recv ex_env 16))"
    "rx_fatal (buffer_recv (buffer (server ?c)) (server_recv ex_env 16))"
    "\<not> tx_fatal (buffer_send (buffer (server ?c)) (client_send ex_env 16))"
    "tx_fatal (buffer_send (buffer (client ?c)) (server_send ex_env 16))"
    by (simp_all add: rx_fatal_def tx_fatal_def buffer_recv_def buffer_send_def buffer_room_def
        buffer_len_def ex_env_def ex_con_def EAGAIN_def EWOULDBLOCK_def EINTR_def)
  have q: "connections (ex_world ?c) = [16]" by (simp add: ex_world_def)
  from rx_tx_results [OF h, of ex_env] h show ?thesis
    unfolding q by (simp add: f case_prod_beta)
qed

subsection \<open>C8: the error paths of the handoff\<close>

text \<open>
  C8. In \<^verbatim>\<open>handle_connection_client_hello\<close> on an \<^verbatim>\<open>ACCEPTED\<close> record: when the parser
  returns -1 the world is unchanged; when it returns -2 or less the function does what
  \<^verbatim>\<open>close_connection\<close> does, which leaves the record \<^verbatim>\<open>CLOSED\<close> after one \<^verbatim>\<open>close\<close> of the
  client descriptor; when it returns a hostname and the lookup fails, the record ends
  \<^verbatim>\<open>CLOSED\<close> with its hostname field as it was and the failed lookup result (a negative
  number) as server descriptor, the client descriptor has been closed once, no server
  descriptor has been closed, and the hostname string has been freed.
\<close>

theorem client_hello_errors:
  assumes "heap w p = Some con" and "state con = ACCEPTED"
    and "parse_packet e (listener con) (buffer_peek (buffer (client con)) 1460) = (r, h)"
    and "lookup_server_socket e p (listener con) h = fd"
  shows "(r = - 1 \<longrightarrow> handle_connection_client_hello e p w = w)
       \<and> (r = - 2 \<or> r < - 2 \<longrightarrow>
            handle_connection_client_hello e p w = close_connection p w
            \<and> heap (handle_connection_client_hello e p w) p = Some (con\<lparr>state := CLOSED\<rparr>)
            \<and> trace (handle_connection_client_hello e p w)
                = trace w @ [Close (sockfd (client con))])
       \<and> (0 \<le> r \<and> fd < 0 \<longrightarrow>
            heap (handle_connection_client_hello e p w) p
              = Some (con\<lparr>server := (server con)\<lparr>sockfd := fd\<rparr>, state := CLOSED\<rparr>)
            \<and> trace (handle_connection_client_hello e p w)
                = trace w @ [Close (sockfd (client con))]
                    @ (case h of None \<Rightarrow> [] | Some s \<Rightarrow> [Free s]))"
  using assms(2)
  by (auto simp: client_hello_result [OF assms(1) assms(3) assms(4)]
      close_connection_ACCEPTED assms(1))

theorem client_hello_errors_witness:
  "heap (ex_world (ex_con ACCEPTED ''ab'' [])) 16 = Some (ex_con ACCEPTED ''ab'' [])
   \<and> state (ex_con ACCEPTED ''ab'' []) = ACCEPTED
   \<and> parse_packet ex_env 7 ''ab'' = (- 1, None)
   \<and> handle_connection_client_hello ex_env 16 (ex_world (ex_con ACCEPTED ''ab'' []))
       = ex_world (ex_con ACCEPTED ''ab'' [])
   \<and> parse_packet ex_env 7 [] = (- 2, None)
   \<and> heap (handle_connection_client_hello ex_env 16 (ex_world (ex_con ACCEPTED [] []))) 16
       = Some (ex_con CLOSED [] [])
   \<and> trace (handle_connection_client_hello ex_env 16 (ex_world (ex_con ACCEPTED [] [])))
       = [Close 5]
   \<and> parse_packet ex_env 7 ''down'' = (4, Some ''down'')
   \<and> lookup_server_socket ex_env 16 7 (Some ''down'') = - 1
   \<and> heap (handle_connection_client_hello ex_env 16 (ex_world (ex_con ACCEPTED ''down'' []))) 16
       = Some ((ex_con CLOSED ''down'' [])\<lparr>server := \<lparr>sockfd = - 1, buffer = \<lparr>capacity = 8, content = []\<rparr>\<rparr>\<rparr>)
   \<and> trace (handle_connection_client_hello ex_env 16 (ex_world (ex_con ACCEPTED ''down'' [])))
       = [Close 5, Free ''down'']"
proof -
  have h: "\<And>c. heap (ex_world c) 16 = Some c" by (simp add: ex_world_def)
  have s: "\<And>cb. state (ex_con ACCEPTED cb []) = ACCEPTED" by (simp add: ex_con_def)
  have p1: "parse_packet ex_env (listener (ex_con ACCEPTED ''ab'' []))
              (buffer_peek (buffer (client (ex_con ACCEPTED ''ab'' []))) 1460) = (- 1, None)"
    and p2: "parse_packet ex_env (listener (ex_con ACCEPTED [] []))
              (buffer_peek (buffer (client (ex_con ACCEPTED [] []))) 1460) = (- 2, None)"
    and p3: "parse_packet ex_env (listener (ex_con ACCEPTED ''down'' []))
              (buffer_peek (buffer (client (ex_con ACCEPTED ''down'' []))) 1460) = (4, Some ''down'')"
    by (simp_all add: ex_defs buffer_peek_def)
  have l1: "lookup_server_socket ex_env 16 (listener (ex_con ACCEPTED ''ab'' [])) None = 6"
    and l3: "lookup_server_socket ex_env 16 (listener (ex_con ACCEPTED ''down'' [])) (Some ''down'') = - 1"
    by (simp_all add: ex_defs)
  have q: "parse_packet ex_env 7 ''ab'' = (- 1, None)" "parse_packet ex_env 7 [] = (- 2, None)"
    "parse_packet ex_env 7 ''down'' = (4, Some ''down'')"
    "lookup_server_socket ex_env 16 7 (Some ''down'') = - 1"
    by (simp_all add: ex_defs)
  have a: "handle_connection_client_hello ex_env 16 (ex_world (ex_con ACCEPTED ''ab'' []))
       = ex_world (ex_con ACCEPTED ''ab'' [])"
    using client_hello_errors [OF h s p1 l1] by simp
  have v: "(ex_con ACCEPTED [] [])\<lparr>state := CLOSED\<rparr> = ex_con CLOSED [] []"
    "trace (ex_world (ex_con ACCEPTED [] [])) @ [Close (sockfd (client (ex_con ACCEPTED [] [])))]
       = [Close 5]"
    "(ex_con ACCEPTED ''down'' [])\<lparr>server := (server (ex_con ACCEPTED ''down'' []))\<lparr>sockfd := - 1\<rparr>,
        state := CLOSED\<rparr>
       = (ex_con CLOSED ''down'' [])\<lparr>server := \<lparr>sockfd = - 1, buffer = \<lparr>capacity = 8, content = []\<rparr>\<rparr>\<rparr>"
    "trace (ex_world (ex_con ACCEPTED ''down'' []))
        @ [Close (sockfd (client (ex_con ACCEPTED ''down'' [])))]
        @ (case Some ''down'' of None \<Rightarrow> [] | Some s \<Rightarrow> [Free s])
       = [Close 5, Free ''down'']"
    by (simp_all add: ex_con_def ex_world_def)
  have "heap (handle_connection_client_hello ex_env 16 (ex_world (ex_con ACCEPTED [] []))) 16
       = Some ((ex_con ACCEPTED [] [])\<lparr>state := CLOSED\<rparr>)
     \<and> trace (handle_connection_client_hello ex_env 16 (ex_world (ex_con ACCEPTED [] [])))
       = trace (ex_world (ex_con ACCEPTED [] [])) @ [Close (sockfd (client (ex_con ACCEPTED [] [])))]"
    using client_hello_errors [OF h s p2 refl] by blast
  then have b: "heap (handle_connection_client_hello ex_env 16 (ex_world (ex_con ACCEPTED [] []))) 16
       = Some (ex_con CLOSED [] [])
     \<and> trace (handle_connection_client_hello ex_env 16 (ex_world (ex_con ACCEPTED [] [])))
       = [Close 5]"
    unfolding v .
  have "heap (handle_connection_client_hello ex_env 16 (ex_world (ex_con ACCEPTED ''down'' []))) 16
       = Some ((ex_con ACCEPTED ''down'' [])\<lparr>server := (server (ex_con ACCEPTED ''down'' []))\<lparr>sockfd := - 1\<rparr>,
        state := CLOSED\<rparr>)
     \<and> trace (handle_connection_client_hello ex_env 16 (ex_world (ex_con ACCEPTED ''down'' [])))
       = trace (ex_world (ex_con ACCEPTED ''down'' []))
        @ [Close (sockfd (client (ex_con ACCEPTED ''down'' [])))]
        @ (case Some ''down'' of None \<Rightarrow> [] | Some s \<Rightarrow> [Free s])"
    using client_hello_errors [OF h s p3 l3] by simp
  then have c: "heap (handle_connection_client_hello ex_env 16 (ex_world (ex_con ACCEPTED ''down'' []))) 16
       = Some ((ex_con CLOSED ''down'' [])\<lparr>server := \<lparr>sockfd = - 1, buffer = \<lparr>capacity = 8, content = []\<rparr>\<rparr>\<rparr>)
     \<and> trace (handle_connection_client_hello ex_env 16 (ex_world (ex_con ACCEPTED ''down'' [])))
       = [Close 5, Free ''down'']"
    unfolding v .
  from h [of "ex_con ACCEPTED ''ab'' []"] s [of "''ab''"] q a b c show ?thesis by simp
qed

subsection \<open>C9: the hostname field\<close>

text \<open>
  C9, as amended. In every reachable world, whatever the environment does, a record
  whose hostname is set is in state \<^verbatim>\<open>CONNECTED\<close>, \<^verbatim>\<open>CLIENT_CLOSED\<close>, \<^verbatim>\<open>SERVER_CLOSED\<close> or
  \<^verbatim>\<open>CLOSED\<close> (the hostname stays on the record until \<^verbatim>\<open>free_connection\<close>). And in every
  world reachable against listeners whose parser returns a result that is not negative
  only together with a hostname string that is not empty, the hostname of a
  \<^verbatim>\<open>CONNECTED\<close> record is a string that is not empty: the code stores what the parser
  returned and does not look at it.
\<close>

theorem hostname_invariant:
  "(reachable E w \<and> heap w p = Some c \<and> hostname c \<noteq> None
      \<longrightarrow> state c = CONNECTED \<or> state c = CLIENT_CLOSED \<or> state c = SERVER_CLOSED
          \<or> state c = CLOSED)
 \<and> (reachable parser_ok v \<and> heap v q = Some d \<and> state d = CONNECTED
      \<longrightarrow> (\<exists>h. hostname d = Some h \<and> h \<noteq> []))"
proof (intro conjI impI)
  assume a: "reachable E w \<and> heap w p = Some c \<and> hostname c \<noteq> None"
  then have "reachable E w" by simp
  then have "heap_inv hostname_state w" by (rule reachable_hostname_state)
  with a show "state c = CONNECTED \<or> state c = CLIENT_CLOSED \<or> state c = SERVER_CLOSED
          \<or> state c = CLOSED"
    by (auto simp: heap_inv_def hostname_state_def)
next
  assume a: "reachable parser_ok v \<and> heap v q = Some d \<and> state d = CONNECTED"
  then have "reachable parser_ok v" by simp
  then have "heap_inv hostname_nonempty v" by (rule reachable_hostname_nonempty)
  with a show "\<exists>h. hostname d = Some h \<and> h \<noteq> []"
    by (auto simp: heap_inv_def hostname_nonempty_def)
qed

text \<open>
  C9 as stated fails in two ways. A client is accepted and sends a hello, the upstream
  is connected, then both peers close: the record is \<^verbatim>\<open>CLOSED\<close>, still in the queue, and
  its hostname is still set. And against a parser that answers 0 with an empty hostname
  string, the record of an accepted client that sent a hello is \<^verbatim>\<open>CONNECTED\<close> with an
  empty hostname.
\<close>

theorem closed_record_keeps_hostname:
  "reachable parser_ok ex_w3
   \<and> connections ex_w3 = [16]
   \<and> map_option hostname (heap ex_w3 16) = Some (Some ''svc'')
   \<and> map_option state (heap ex_w3 16) = Some CLOSED
   \<and> reachable (\<lambda>e. True) ex_w_empty_name
   \<and> connections ex_w_empty_name = [16]
   \<and> map_option hostname (heap ex_w_empty_name 16) = Some (Some [])
   \<and> map_option state (heap ex_w_empty_name 16) = Some CONNECTED"
proof -
  have a: "connections ex_w3 = [16]
   \<and> map_option hostname (heap ex_w3 16) = Some (Some ''svc'')
   \<and> map_option state (heap ex_w3 16) = Some CLOSED"
    by (simp add: ex_w3_eval ex_world_def ex_con_def)
  have b: "connections ex_w_empty_name = [16]
   \<and> map_option hostname (heap ex_w_empty_name 16) = Some (Some [])
   \<and> map_option state (heap ex_w_empty_name 16) = Some CONNECTED"
    by (simp add: ex_w_empty_name_eval ex_world_def ex_con_def)
  from reachable_ex(3) a reachable_ex_any(2) b show ?thesis by (intro conjI) simp_all
qed

text \<open>
  The amended statement on the \<^verbatim>\<open>CONNECTED\<close> record with the empty hostname (first
  part) and on a \<^verbatim>\<open>CONNECTED\<close> record under the parser contract (second part).
\<close>

theorem hostname_invariant_witness:
  "reachable (\<lambda>e. True) ex_w_empty_name
   \<and> heap ex_w_empty_name 16 = Some ((ex_con CONNECTED ''svc'' [])\<lparr>hostname := Some []\<rparr>)
   \<and> hostname ((ex_con CONNECTED ''svc'' [])\<lparr>hostname := Some []\<rparr>) \<noteq> None
   \<and> (state ((ex_con CONNECTED ''svc'' [])\<lparr>hostname := Some []\<rparr>) = CONNECTED
        \<or> state ((ex_con CONNECTED ''svc'' [])\<lparr>hostname := Some []\<rparr>) = CLIENT_CLOSED
        \<or> state ((ex_con CONNECTED ''svc'' [])\<lparr>hostname := Some []\<rparr>) = SERVER_CLOSED
        \<or> state ((ex_con CONNECTED ''svc'' [])\<lparr>hostname := Some []\<rparr>) = CLOSED)
   \<and> reachable parser_ok ex_w2
   \<and> heap ex_w2 16 = Some ((ex_con CONNECTED ''svc'' [])\<lparr>hostname := Some ''svc''\<rparr>)
   \<and> state ((ex_con CONNECTED ''svc'' [])\<lparr>hostname := Some ''svc''\<rparr>) = CONNECTED
   \<and> (\<exists>h. hostname ((ex_con CONNECTED ''svc'' [])\<lparr>hostname := Some ''svc''\<rparr>) = Some h \<and> h \<noteq> [])"
proof -
  let ?c = "(ex_con CONNECTED ''svc'' [])\<lparr>hostname := Some []\<rparr>"
  let ?d = "(ex_con CONNECTED ''svc'' [])\<lparr>hostname := Some ''svc''\<rparr>"
  have hc: "heap ex_w_empty_name 16 = Some ?c"
    by (simp add: ex_w_empty_name_eval ex_world_def)
  have nc: "hostname ?c \<noteq> None" by simp
  have hd: "heap ex_w2 16 = Some ?d"
    by (simp add: ex_w2_eval ex_world_def)
  have sd: "state ?d = CONNECTED" by (simp add: ex_con_def)
  note t = hostname_invariant [of "\<lambda>e. True" ex_w_empty_name 16 ?c ex_w2 16 ?d]
  have 1: "state ?c = CONNECTED \<or> state ?c = CLIENT_CLOSED \<or> state ?c = SERVER_CLOSED
        \<or> state ?c = CLOSED"
    using t [THEN conjunct1] reachable_ex_any(2) hc nc by blast
  have 2: "\<exists>h. hostname ?d = Some h \<and> h \<noteq> []"
    using t [THEN conjunct2] reachable_ex(2) hd sd by blast
  from reachable_ex_any(2) hc nc 1 reachable_ex(2) hd sd 2 show ?thesis by (intro conjI)
qed

subsection \<open>C10: when the handoff runs\<close>

text \<open>
  C10. For an \<^verbatim>\<open>ACCEPTED\<close> record, whenever the receive neither failed fatally nor
  returned 0, \<^verbatim>\<open>handle_connection_client_rx\<close> runs \<^verbatim>\<open>handle_connection_client_hello\<close> on
  the record with the buffer as the receive left it, then moves the record to the head of
  the queue and returns 0. In particular, after a temporary error the receive has added
  nothing and the handoff runs on the world as it was.
\<close>

theorem client_rx_runs_client_hello:
  assumes "heap w p = Some con" and "state con = ACCEPTED"
    and "buffer_recv (buffer (client con)) (client_recv e p) = (n, errno, b)"
    and "\<not> (n < 0 \<and> \<not> IS_TEMPORARY_SOCKERR errno)" and "n \<noteq> 0"
  shows "handle_connection_client_rx e p w =
           (0, move_to_head_of_queue p
                 (handle_connection_client_hello e p
                    (store p (con\<lparr>client := (client con)\<lparr>buffer := b\<rparr>\<rparr>) w)))
       \<and> (n < 0 \<longrightarrow> b = buffer (client con)
            \<and> handle_connection_client_rx e p w =
                (0, move_to_head_of_queue p (handle_connection_client_hello e p w)))"
proof -
  have 1: "handle_connection_client_rx e p w =
           (0, move_to_head_of_queue p
                 (handle_connection_client_hello e p
                    (store p (con\<lparr>client := (client con)\<lparr>buffer := b\<rparr>\<rparr>) w)))"
    using assms(2,4,5) by (simp add: client_rx_result [OF assms(1) assms(3)])
  have 2: "b = buffer (client con)" if "n < 0"
    using assms(3) that by (auto simp: buffer_recv_def Let_def split: recv_answer.splits)
  have 3: "store p (con\<lparr>client := (client con)\<lparr>buffer := buffer (client con)\<rparr>\<rparr>) w = w"
    using assms(1) by (simp add: store_same)
  from 1 2 3 show ?thesis by auto
qed

theorem client_rx_runs_client_hello_witness:
  "heap (ex_world (ex_con ACCEPTED [] [])) 16 = Some (ex_con ACCEPTED [] [])
   \<and> state (ex_con ACCEPTED [] []) = ACCEPTED
   \<and> buffer_recv (buffer (client (ex_con ACCEPTED [] []))) (client_recv ex_env_again 16)
       = (- 1, EAGAIN, \<lparr>capacity = 8, content = []\<rparr>)
   \<and> IS_TEMPORARY_SOCKERR EAGAIN
   \<and> handle_connection_client_rx ex_env_again 16 (ex_world (ex_con ACCEPTED [] []))
       = (0, move_to_head_of_queue 16
               (handle_connection_client_hello ex_env_again 16 (ex_world (ex_con ACCEPTED [] []))))
   \<and> heap (handle_connection_client_hello ex_env_again 16 (ex_world (ex_con ACCEPTED [] []))) 16
       = Some (ex_con CLOSED [] [])"
proof -
  let ?c = "ex_con ACCEPTED [] []"
  have 1: "heap (ex_world ?c) 16 = Some ?c" by (simp add: ex_world_def)
  have 2: "state ?c = ACCEPTED" by (simp add: ex_con_def)
  have 3: "buffer_recv (buffer (client ?c)) (client_recv ex_env_again 16)
       = (- 1, EAGAIN, \<lparr>capacity = 8, content = []\<rparr>)"
    by (simp add: buffer_recv_def ex_env_again_def ex_env_def ex_con_def)
  have 4: "IS_TEMPORARY_SOCKERR EAGAIN" by (simp add: IS_TEMPORARY_SOCKERR_def)
  have 5: "\<not> (- 1 < (0::int) \<and> \<not> IS_TEMPORARY_SOCKERR EAGAIN)" "- 1 \<noteq> (0::int)"
    using 4 by simp_all
  have 6: "heap (handle_connection_client_hello ex_env_again 16 (ex_world ?c)) 16
       = Some (ex_con CLOSED [] [])"
    by (simp add: ex_env_again_def ex_defs step_defs)
  have 7: "handle_connection_client_rx ex_env_again 16 (ex_world ?c)
       = (0, move_to_head_of_queue 16
               (handle_connection_client_hello ex_env_again 16 (ex_world ?c)))"
    using client_rx_runs_client_hello [OF 1 2 3 5, THEN conjunct2] by simp
  from 1 2 3 4 6 7 show ?thesis by blast
qed

end
